theory Spec2Isabelle
  imports Main "HOL-Library.Word"
begin

section \<open>The fitness modular input: data model\<close>

text \<open>
  The program is the Go modular input \<^verbatim>\<open>FitnessInput.go\<close>. Its configuration
  (\<^verbatim>\<open>splunk.ModInputConfig\<close>) is a list of stanzas, each a name and a list of
  parameters, together with a checkpoint directory and a session key. The
  secure store answers \<^verbatim>\<open>splunk.GetEntities\<close> with a list of entries, each an
  identifier and a list of keys (\<^verbatim>\<open>entry.Contents.Keys\<close>).
\<close>

type_synonym time = int
  \<comment> \<open>an instant, in nanoseconds since the Unix epoch\<close>

type_synonym bytes = "8 word list"

record param =
  Name :: string
  Value :: string

record stanza =
  StanzaName :: string
  Params :: "param list"

record config =
  Stanzas :: "stanza list"
  CheckpointDir :: string
  SessionKey :: string

text \<open>A key of a stored entry: \<^verbatim>\<open>key.Name\<close> and \<^verbatim>\<open>key.Value\<close>.\<close>

record key =
  KeyName :: string
  KeyValue :: string

record entry =
  ID :: string
  Keys :: "key list"

text \<open>
  \<^verbatim>\<open>FitnessInput\<close> embeds a pointer to the configuration, which is nil until
  \<^verbatim>\<open>StreamEvents\<close> stores the result of \<^verbatim>\<open>ReadModInputConfig\<close> in it.
\<close>

record fitnessInput =
  ModInputConfig :: "config option"

text \<open>The temporary struct that \<^verbatim>\<open>getTokens\<close> decodes the stored JSON into.\<close>

record tokenData =
  AccessToken :: string
  RefreshToken :: string
  TokenType :: string
  Expires :: string

text \<open>
  The only implementation of the reader interface that the source constructs;
  its two fields are \<^verbatim>\<open>startTime\<close> and \<^verbatim>\<open>endTime\<close>.
\<close>

datatype fitnessReader = GoogleFitnessReader time time

text \<open>
  A run ends early in two ways: \<^verbatim>\<open>log.Fatal\<close>/\<^verbatim>\<open>log.Fatalf\<close> (the process exits
  with status 1) and a run-time panic (index out of range, nil dereference).
\<close>

datatype failure = Fatal string | Panic string

definition APP_NAME :: string where "APP_NAME = ''TA-GoogleFitness''"
definition STRATEGY_GOOGLE :: string where "STRATEGY_GOOGLE = ''GoogleFitness''"
definition STRATEGY_FITBIT :: string where "STRATEGY_FITBIT = ''FitBit''"
definition STRATEGY_MICROSOFT :: string where "STRATEGY_MICROSOFT = ''Microsoft''"
definition STRATEGY_PARAM_NAME :: string where "STRATEGY_PARAM_NAME = ''FitnessService''"

section \<open>Effects\<close>

text \<open>
  What a run does to its surroundings is recorded in order: log lines that do
  not end the run, queries of the secure store, reads and writes of files,
  construction of an HTTP client, and calls of a reader's \<^verbatim>\<open>getData\<close>.
\<close>

datatype ('tok, 'cli) event =
    EvLog string
  | EvGetEntities string
  | EvReadFile string
  | EvWriteFile string bytes
  | EvGetClient 'tok string string
  | EvGetData fitnessReader 'cli

text \<open>
  The state a run threads through its calls: the files on disk (no entry: the
  read fails), how often the clock and the store have been asked, and the
  events so far, oldest first.
\<close>

record ('tok, 'cli) world =
  files :: "string \<rightharpoonup> bytes"
  ticks :: nat
  queries :: nat
  trace :: "('tok, 'cli) event list"

text \<open>
  Everything the source calls and does not define is a parameter of the model:
  the clock (\<open>clock n\<close> is what the \<open>n\<close>-th call of \<^verbatim>\<open>time.Now\<close> returns), the
  answers of the secure store (\<open>store n\<close> answers the \<open>n\<close>-th query, \<open>Inl\<close> an
  error), the failure of a file write (\<open>None\<close>: the write succeeds; otherwise
  the error and what the failed write leaves at the path), the gob and JSON
  codecs, \<^verbatim>\<open>path.Join\<close>, and the functions \<^verbatim>\<open>newToken\<close>, \<^verbatim>\<open>getClient\<close> and
  \<^verbatim>\<open>getData\<close> of the other files of the package.
\<close>

record ('tok, 'cli) env =
  clock :: "nat \<Rightarrow> time"
  store :: "nat \<Rightarrow> string + entry list"
  writeFault :: "string \<Rightarrow> bytes \<Rightarrow> (string \<times> bytes option) option"
  GobEncode :: "time \<Rightarrow> string + bytes"
  GobDecode :: "bytes \<Rightarrow> string + time"
  jsonDecode :: "string \<Rightarrow> string + tokenData"
  pathJoin :: "string \<Rightarrow> string \<Rightarrow> string"
  newToken :: "string \<Rightarrow> string \<Rightarrow> string \<Rightarrow> string \<Rightarrow> 'tok"
  getClient :: "'tok \<Rightarrow> string \<Rightarrow> string \<Rightarrow> 'cli"
  getData :: "fitnessReader \<Rightarrow> 'cli \<Rightarrow> failure + time"

type_synonym ('a, 'tok, 'cli) run =
  "('tok, 'cli) world \<Rightarrow> (failure + 'a) \<times> ('tok, 'cli) world"

definition bindE ::
  "('a, 'tok, 'cli) run \<Rightarrow> ('a \<Rightarrow> ('b, 'tok, 'cli) run) \<Rightarrow> ('b, 'tok, 'cli) run" where
  "bindE m f w = (case m w of (Inl e, w') \<Rightarrow> (Inl e, w') | (Inr x, w') \<Rightarrow> f x w')"

definition emit :: "('tok, 'cli) event \<Rightarrow> ('tok, 'cli) world \<Rightarrow> ('tok, 'cli) world" where
  "emit ev w = w\<lparr>trace := trace w @ [ev]\<rparr>"

text \<open>\<^verbatim>\<open>time.Now()\<close>: the next reading of the clock.\<close>

definition Now :: "('tok, 'cli) env \<Rightarrow> ('tok, 'cli) world \<Rightarrow> time \<times> ('tok, 'cli) world" where
  "Now env w = (clock env (ticks w), w\<lparr>ticks := Suc (ticks w)\<rparr>)"

text \<open>\<^verbatim>\<open>splunk.GetEntities\<close> with the session key: the next answer of the store.\<close>

definition GetEntities ::
  "('tok, 'cli) env \<Rightarrow> string \<Rightarrow> ('tok, 'cli) world \<Rightarrow> (string + entry list) \<times> ('tok, 'cli) world" where
  "GetEntities env sessionKey w =
     (store env (queries w), emit (EvGetEntities sessionKey) (w\<lparr>queries := Suc (queries w)\<rparr>))"

text \<open>\<^verbatim>\<open>ioutil.ReadFile\<close>: the contents, or an error when there is nothing to read.\<close>

definition ReadFile ::
  "string \<Rightarrow> ('tok, 'cli) world \<Rightarrow> (string + bytes) \<times> ('tok, 'cli) world" where
  "ReadFile p w =
     (case files w p of
        None \<Rightarrow> (Inl ''open: no such file or directory'', emit (EvReadFile p) w)
      | Some b \<Rightarrow> (Inr b, emit (EvReadFile p) w))"

text \<open>\<^verbatim>\<open>ioutil.WriteFile\<close>: replaces the contents, unless the write fails.\<close>

definition WriteFile ::
  "('tok, 'cli) env \<Rightarrow> string \<Rightarrow> bytes \<Rightarrow> ('tok, 'cli) world \<Rightarrow> string option \<times> ('tok, 'cli) world" where
  "WriteFile env p g w =
     (case writeFault env p g of
        None \<Rightarrow> (None, emit (EvWriteFile p g) (w\<lparr>files := (files w)(p \<mapsto> g)\<rparr>))
      | Some (err, left) \<Rightarrow> (Some err, emit (EvWriteFile p g) (w\<lparr>files := (files w)(p := left)\<rparr>)))"

section \<open>Strings\<close>

text \<open>
  \<^verbatim>\<open>strings.Index\<close>: the position of the first occurrence of \<open>sep\<close> in \<open>s\<close>;
  \<^verbatim>\<open>strings.Contains\<close> is \<^verbatim>\<open>Index(s, substr) >= 0\<close>.
\<close>

fun Index :: "string \<Rightarrow> string \<Rightarrow> nat option" where
  "Index s sep =
     (if take (length sep) s = sep then Some 0
      else case s of [] \<Rightarrow> None | c # cs \<Rightarrow> map_option Suc (Index cs sep))"

declare Index.simps [simp del]

definition Contains :: "string \<Rightarrow> string \<Rightarrow> bool" where
  "Contains s substr = (Index s substr \<noteq> None)"

lemma Index_bound: "Index s sep = Some m \<Longrightarrow> m + length sep \<le> length s"
proof (induction s arbitrary: m)
  case Nil
  then show ?case by (simp add: Index.simps [of "[]"] split: if_splits)
next
  case (Cons c cs)
  show ?case
  proof (cases "take (length sep) (c # cs) = sep")
    case True
    from True have "length (take (length sep) (c # cs)) = length sep"
      by simp
    then have "length sep \<le> length (c # cs)"
      by (simp only: length_take)
    with True Cons.prems show ?thesis by (simp add: Index.simps [of "c # cs"])
  next
    case False
    with Cons.prems obtain m' where "Index cs sep = Some m'" "m = Suc m'"
      by (auto simp: Index.simps [of "c # cs"])
    with Cons.IH show ?thesis by fastforce
  qed
qed

text \<open>
  \<^verbatim>\<open>strings.Split\<close> for a separator that is not empty, as \<^verbatim>\<open>genSplit\<close> does it:
  cut at the first occurrence, go on behind it, and end with what is left.
  (For the empty separator Go cuts after every character; the source only
  splits at \<^verbatim>\<open>"://"\<close>.)
\<close>

function Split :: "string \<Rightarrow> string \<Rightarrow> string list" where
  "Split s sep =
     (if sep = [] then map (\<lambda>c. [c]) s
      else case Index s sep of
             None \<Rightarrow> [s]
           | Some m \<Rightarrow> take m s # Split (drop (m + length sep) s) sep)"
  by pat_completeness auto
termination
proof (relation "measure (\<lambda>(s, sep). length s)")
  show "wf (measure (\<lambda>(s, sep). length s))" by simp
next
  fix s sep :: string and m
  assume "sep \<noteq> []" "Index s sep = Some m"
  then have "m + length sep \<le> length s" "0 < length sep"
    by (simp_all add: Index_bound)
  then have "length s - (m + length sep) < length s"
    by arith
  then show "((drop (m + length sep) s, sep), s, sep) \<in> measure (\<lambda>(s, sep). length s)"
    by simp
qed

declare Split.simps [simp del]

section \<open>The checkpoint path\<close>

text \<open>
  \<^verbatim>\<open>getCheckPointPath\<close>: \<^verbatim>\<open>input.Stanzas[0]\<close> and \<^verbatim>\<open>fileName[1]\<close> are index
  expressions, which panic out of range; \<^verbatim>\<open>input.Stanzas\<close> dereferences the
  embedded pointer.
\<close>

definition getCheckPointPath :: "('tok, 'cli) env \<Rightarrow> fitnessInput \<Rightarrow> failure + string" where
  "getCheckPointPath env input =
     (case ModInputConfig input of
        None \<Rightarrow> Inl (Panic ''invalid memory address or nil pointer dereference'')
      | Some cfg \<Rightarrow>
          (case Stanzas cfg of
             [] \<Rightarrow> Inl (Panic ''index out of range'')
           | st # _ \<Rightarrow>
               (let fileName = Split (StanzaName st) ''://'' in
                if 1 < length fileName
                then Inr (pathJoin env (CheckpointDir cfg) (fileName ! 1))
                else Inl (Panic ''index out of range''))))"

section \<open>Validation and strategy selection\<close>

text \<open>
  \<^verbatim>\<open>ValidateScheme\<close> returns from inside its two loops at the first parameter
  named \<^verbatim>\<open>FitnessService\<close> whose value is none of the three strategies. Its
  argument is what \<^verbatim>\<open>splunk.ReadModInputConfig\<close> returned: the configuration
  pointer and the error.
\<close>

definition quote :: string where
  "quote = [CHR 0x27]"

fun validateParams :: "param list \<Rightarrow> (bool \<times> string) option" where
  "validateParams [] = None"
| "validateParams (p # ps) =
     (if Name p = STRATEGY_PARAM_NAME \<and>
         \<not> (Value p = STRATEGY_GOOGLE \<or> Value p = STRATEGY_FITBIT \<or> Value p = STRATEGY_MICROSOFT)
      then Some (False, ''Improper service '' @ quote @ Value p @ quote @ '' name indicated.'')
      else validateParams ps)"

fun validateStanzas :: "stanza list \<Rightarrow> (bool \<times> string) option" where
  "validateStanzas [] = None"
| "validateStanzas (st # sts) =
     (case validateParams (Params st) of
        Some r \<Rightarrow> Some r
      | None \<Rightarrow> validateStanzas sts)"

definition ValidateScheme :: "config option \<times> string option \<Rightarrow> failure + (bool \<times> string)" where
  "ValidateScheme rd =
     (case rd of
        (_, Some err) \<Rightarrow> Inr (False, ''Unable to parse configuration.'' @ err)
      | (None, None) \<Rightarrow> Inl (Panic ''invalid memory address or nil pointer dereference'')
      | (Some config, None) \<Rightarrow>
          (case validateStanzas (Stanzas config) of
             Some r \<Rightarrow> Inr r
           | None \<Rightarrow> Inr (True, [])))"

text \<open>
  \<^verbatim>\<open>getStrategy\<close>: the loops run to the end, so the last parameter named
  \<^verbatim>\<open>FitnessService\<close> decides; an empty result is fatal.
\<close>

fun strategyParams :: "param list \<Rightarrow> string \<Rightarrow> string" where
  "strategyParams [] strategy = strategy"
| "strategyParams (p # ps) strategy =
     strategyParams ps (if Name p = STRATEGY_PARAM_NAME then Value p else strategy)"

fun strategyStanzas :: "stanza list \<Rightarrow> string \<Rightarrow> string" where
  "strategyStanzas [] strategy = strategy"
| "strategyStanzas (st # sts) strategy =
     strategyStanzas sts (strategyParams (Params st) strategy)"

definition getStrategy :: "fitnessInput \<Rightarrow> failure + string" where
  "getStrategy input =
     (case ModInputConfig input of
        None \<Rightarrow> Inl (Panic ''invalid memory address or nil pointer dereference'')
      | Some cfg \<Rightarrow>
          (let strategy = strategyStanzas (Stanzas cfg) [] in
           if strategy = [] then Inl (Fatal ''No strategy passed to Fitness Input'')
           else Inr strategy))"

text \<open>
  \<^verbatim>\<open>getReaderStrategy\<close> returns a reader or an error; only the Google strategy
  has a case in its switch.
\<close>

definition getReaderStrategy ::
  "fitnessInput \<Rightarrow> time \<Rightarrow> time \<Rightarrow> failure + (string + fitnessReader)" where
  "getReaderStrategy input startTime endTime =
     (case getStrategy input of
        Inl f \<Rightarrow> Inl f
      | Inr strategy \<Rightarrow>
          if strategy = STRATEGY_GOOGLE then Inr (Inr (GoogleFitnessReader startTime endTime))
          else Inr (Inl (''Unsupported reader requested: '' @ strategy)))"

section \<open>Credentials\<close>

text \<open>
  \<^verbatim>\<open>getAppCredentials\<close>: every entry whose ID contains
  \<^verbatim>\<open>apps.googleusercontent.com\<close> overwrites the two variables from its keys.
\<close>

fun credKeys :: "key list \<Rightarrow> string \<times> string \<Rightarrow> string \<times> string" where
  "credKeys [] acc = acc"
| "credKeys (k # ks) (clientId, clientSecret) =
     credKeys ks
       (if KeyName k = ''username'' then KeyValue k else clientId,
        if KeyName k = ''clear_password'' then KeyValue k else clientSecret)"

fun credEntries :: "entry list \<Rightarrow> string \<times> string \<Rightarrow> string \<times> string" where
  "credEntries [] acc = acc"
| "credEntries (e # es) acc =
     credEntries es
       (if Contains (ID e) ''apps.googleusercontent.com'' then credKeys (Keys e) acc else acc)"

definition getAppCredentials ::
  "('tok, 'cli) env \<Rightarrow> fitnessInput \<Rightarrow> (string \<times> string, 'tok, 'cli) run" where
  "getAppCredentials env input w =
     (case ModInputConfig input of
        None \<Rightarrow> (Inl (Panic ''invalid memory address or nil pointer dereference''), w)
      | Some cfg \<Rightarrow>
          (case GetEntities env (SessionKey cfg) w of
             (Inl err, w') \<Rightarrow>
               (Inl (Fatal (''Unable to retrieve password entries for TA-GoogleFitness: '' @ err)), w')
           | (Inr passwords, w') \<Rightarrow> (Inr (credEntries passwords ([], [])), w')))"

text \<open>
  \<^verbatim>\<open>getTokens\<close>: the inner loop keeps the last \<^verbatim>\<open>clear_password\<close> and notes a
  \<^verbatim>\<open>realm\<close> equal to the strategy (\<^verbatim>\<open>getStrategy\<close> is only called for a key
  named \<^verbatim>\<open>realm\<close>); the outer loop decodes and appends the matching entries.
\<close>

fun tokenKeys :: "fitnessInput \<Rightarrow> key list \<Rightarrow> bool \<times> string \<Rightarrow> failure + (bool \<times> string)" where
  "tokenKeys input [] st = Inr st"
| "tokenKeys input (k # ks) (isForStrategy, tokenJSON) =
     (if KeyName k = ''clear_password'' then tokenKeys input ks (isForStrategy, KeyValue k)
      else if KeyName k = ''realm'' then
        (case getStrategy input of
           Inl f \<Rightarrow> Inl f
         | Inr strategy \<Rightarrow>
             if KeyValue k = strategy then tokenKeys input ks (True, tokenJSON)
             else tokenKeys input ks (isForStrategy, tokenJSON))
      else tokenKeys input ks (isForStrategy, tokenJSON))"

fun tokenEntries ::
  "('tok, 'cli) env \<Rightarrow> fitnessInput \<Rightarrow> entry list \<Rightarrow> 'tok list \<Rightarrow> failure + 'tok list" where
  "tokenEntries env input [] result = Inr result"
| "tokenEntries env input (e # es) result =
     (case tokenKeys input (Keys e) (False, []) of
        Inl f \<Rightarrow> Inl f
      | Inr (isForStrategy, tokenJSON) \<Rightarrow>
          if isForStrategy then
            (case jsonDecode env tokenJSON of
               Inl err \<Rightarrow>
                 Inl (Fatal (''Failed to decode passwords from storage/passwords: '' @ err))
             | Inr temp \<Rightarrow>
                 tokenEntries env input es
                   (result @ [newToken env (RefreshToken temp) (AccessToken temp)
                                (Expires temp) (TokenType temp)]))
          else tokenEntries env input es result)"

definition getTokens ::
  "('tok, 'cli) env \<Rightarrow> fitnessInput \<Rightarrow> ('tok list, 'tok, 'cli) run" where
  "getTokens env input w =
     (case ModInputConfig input of
        None \<Rightarrow> (Inl (Panic ''invalid memory address or nil pointer dereference''), w)
      | Some cfg \<Rightarrow>
          (case GetEntities env (SessionKey cfg) w of
             (Inl err, w') \<Rightarrow> (Inl (Fatal (''Unable to get user tokens from Splunk: '' @ err)), w')
           | (Inr entities, w') \<Rightarrow> (tokenEntries env input entities [], w')))"

section \<open>Checkpoints and the fetch window\<close>

definition Hour :: int where
  "Hour = 3600 * 1000000000"

text \<open>
  \<^verbatim>\<open>readCheckPoint\<close> returns a time and an error: the time read, or the clock
  with the read error, or the clock less two hours with the decode error.
\<close>

definition readCheckPoint ::
  "('tok, 'cli) env \<Rightarrow> fitnessInput \<Rightarrow> (time \<times> string option, 'tok, 'cli) run" where
  "readCheckPoint env input w =
     (case getCheckPointPath env input of
        Inl f \<Rightarrow> (Inl f, w)
      | Inr p \<Rightarrow>
          (case ReadFile p w of
             (Inl err, w1) \<Rightarrow>
               (let (now, w2) = Now env (emit (EvLog ''Unable to read checkpoint file'') w1)
                in (Inr (now, Some err), w2))
           | (Inr b, w1) \<Rightarrow>
               (case GobDecode env b of
                  Inl err \<Rightarrow>
                    (let (now, w2) = Now env (emit (EvLog ''Unable to decode checkpoint file'') w1)
                     in (Inr (now + (- 2) * Hour, Some err), w2))
                | Inr t \<Rightarrow> (Inr (t, None), w1))))"

text \<open>\<^verbatim>\<open>getTimes\<close>: on any error of the read the start is the clock again.\<close>

definition getTimes ::
  "('tok, 'cli) env \<Rightarrow> fitnessInput \<Rightarrow> (time \<times> time, 'tok, 'cli) run" where
  "getTimes env input =
     bindE (readCheckPoint env input) (\<lambda>(startTime, err) w.
       let (startTime, w1) = (if err \<noteq> None then Now env w else (startTime, w));
           (endTime, w2) = Now env w1
       in (Inr (startTime, endTime), w2))"

text \<open>\<^verbatim>\<open>writeCheckPoint\<close>: encode, then write; either failure is fatal.\<close>

definition writeCheckPoint ::
  "('tok, 'cli) env \<Rightarrow> fitnessInput \<Rightarrow> time \<Rightarrow> (unit, 'tok, 'cli) run" where
  "writeCheckPoint env input t w =
     (case GobEncode env t of
        Inl err \<Rightarrow> (Inl (Fatal (''Unable to encode checkpoint time: '' @ err)), w)
      | Inr g \<Rightarrow>
          (case getCheckPointPath env input of
             Inl f \<Rightarrow> (Inl f, w)
           | Inr p \<Rightarrow>
               (case WriteFile env p g w of
                  (Some err, w') \<Rightarrow> (Inl (Fatal (''Error writing checkpoint file: '' @ err)), w')
                | (None, w') \<Rightarrow> (Inr (), w'))))"

section \<open>The run\<close>

text \<open>
  The body of the loop of \<^verbatim>\<open>StreamEvents\<close>, for one token: the application
  credentials, the client, the window, the reader, and the checkpoint of what
  \<^verbatim>\<open>getData\<close> returns.
\<close>

definition fetchAndCheckpoint ::
  "('tok, 'cli) env \<Rightarrow> fitnessInput \<Rightarrow> fitnessReader \<Rightarrow> 'cli \<Rightarrow> (unit, 'tok, 'cli) run" where
  "fetchAndCheckpoint env input fitnessReader client w =
     (case getData env fitnessReader client of
        Inl f \<Rightarrow> (Inl f, emit (EvGetData fitnessReader client) w)
      | Inr t \<Rightarrow> writeCheckPoint env input t (emit (EvGetData fitnessReader client) w))"

definition forToken ::
  "('tok, 'cli) env \<Rightarrow> fitnessInput \<Rightarrow> 'tok \<Rightarrow> (unit, 'tok, 'cli) run" where
  "forToken env input token =
     bindE (getAppCredentials env input) (\<lambda>(clientId, clientSecret) w0.
       (let client = getClient env token clientId clientSecret
        in bindE (getTimes env input) (\<lambda>(startTime, endTime) w.
             (case getReaderStrategy input startTime endTime of
                Inl f \<Rightarrow> (Inl f, w)
              | Inr (Inl err) \<Rightarrow> (Inl (Fatal err), w)
              | Inr (Inr fitnessReader) \<Rightarrow> fetchAndCheckpoint env input fitnessReader client w))
           (emit (EvGetClient token clientId clientSecret) w0)))"

fun forTokens ::
  "('tok, 'cli) env \<Rightarrow> fitnessInput \<Rightarrow> 'tok list \<Rightarrow> (unit, 'tok, 'cli) run" where
  "forTokens env input [] w = (Inr (), w)"
| "forTokens env input (token # tokens) w =
     (case forToken env input token w of
        (Inl f, w') \<Rightarrow> (Inl f, w')
      | (Inr _, w') \<Rightarrow> forTokens env input tokens w')"

text \<open>
  \<^verbatim>\<open>StreamEvents\<close>: an error of \<^verbatim>\<open>ReadModInputConfig\<close> is only logged, and the
  pointer it returned is stored whatever it is.
\<close>

definition StreamEvents ::
  "('tok, 'cli) env \<Rightarrow> config option \<times> string option \<Rightarrow> (unit, 'tok, 'cli) run" where
  "StreamEvents env rd w =
     (let (config, err) = rd;
          w1 = (if err \<noteq> None
                then emit (EvLog ''Unable to read Modular Input config from reader.'') w
                else w);
          input = \<lparr>ModInputConfig = config\<rparr>
      in bindE (getTokens env input) (forTokens env input) w1)"

section \<open>An instance of the parameters\<close>

text \<open>
  A codec in the layout of Go's binary encoding of a time, which is what
  \<^verbatim>\<open>GobEncode\<close> and \<^verbatim>\<open>GobDecode\<close> of \<^verbatim>\<open>time.Time\<close> produce and accept: one
  version byte, the seconds since year 1 in eight bytes, the nanoseconds in
  four, and the zone offset in two (\<open>-1\<close> for UTC), all big-endian. The model
  keeps the instant only, so every time is written as a UTC time; an instant
  whose seconds do not fit 64 bits is no value of the Go type.
\<close>

definition unixToInternal :: int where
  "unixToInternal = 62135596800"

definition bigEndian :: "nat \<Rightarrow> int \<Rightarrow> bytes" where
  "bigEndian n v = map (\<lambda>i. word_of_int (v div 256 ^ i)) (rev [0..<n])"

definition unsignedOf :: "bytes \<Rightarrow> int" where
  "unsignedOf bs = foldl (\<lambda>a b. a * 256 + uint b) 0 bs"

definition signedOf :: "bytes \<Rightarrow> int" where
  "signedOf bs =
     (let u = unsignedOf bs
      in if 2 * u < 256 ^ length bs then u else u - 256 ^ length bs)"

definition timeMarshalBinary :: "time \<Rightarrow> string + bytes" where
  "timeMarshalBinary t =
     (let sec = t div 1000000000 + unixToInternal; nsec = t mod 1000000000
      in if - (2 ^ 63) \<le> sec \<and> sec < 2 ^ 63
         then Inr ([1] @ bigEndian 8 sec @ bigEndian 4 nsec @ [255, 255])
         else Inl ''time out of range'')"

definition timeUnmarshalBinary :: "bytes \<Rightarrow> string + time" where
  "timeUnmarshalBinary buf =
     (if length buf = 0 then Inl ''Time.UnmarshalBinary: no data''
      else if hd buf \<noteq> 1 then Inl ''Time.UnmarshalBinary: unsupported version''
      else if length buf \<noteq> 1 + 8 + 4 + 2 then Inl ''Time.UnmarshalBinary: invalid length''
      else Inr ((signedOf (take 8 (drop 1 buf)) - unixToInternal) * 1000000000
                + signedOf (take 4 (drop 9 buf))))"

text \<open>Tokens and clients as the tuples of what they are built from.\<close>

type_synonym sampleToken = "string \<times> string \<times> string \<times> string"
type_synonym sampleClient = "sampleToken \<times> string \<times> string"

text \<open>A decoder that knows two token payloads and rejects everything else.\<close>

definition sampleJSON :: "string \<Rightarrow> string + tokenData" where
  "sampleJSON s =
     (if s = ''{A}'' then
        Inr \<lparr>AccessToken = ''accessA'', RefreshToken = ''refreshA'',
             TokenType = ''Bearer'', Expires = ''2016-06-21''\<rparr>
      else if s = ''{B}'' then
        Inr \<lparr>AccessToken = ''accessB'', RefreshToken = ''refreshB'',
             TokenType = ''Bearer'', Expires = ''2016-06-22''\<rparr>
      else Inl ''invalid character'')"

text \<open>
  The sample surroundings: a clock that advances by one second per reading
  from 2016-06-21 00:00:00 UTC, a store that always gives the same entries,
  writes that succeed, and a \<^verbatim>\<open>getData\<close> that returns the end of its window.
\<close>

definition sampleEnv :: "entry list \<Rightarrow> (sampleToken, sampleClient) env" where
  "sampleEnv es =
     \<lparr>clock = (\<lambda>n. 1466467200000000000 + int n * 1000000000),
      store = (\<lambda>n. Inr es),
      writeFault = (\<lambda>p g. None),
      GobEncode = timeMarshalBinary,
      GobDecode = timeUnmarshalBinary,
      jsonDecode = sampleJSON,
      pathJoin = (\<lambda>dir name. dir @ ''/'' @ name),
      newToken = (\<lambda>refresh access expiry tokenType. (refresh, access, expiry, tokenType)),
      getClient = (\<lambda>tok clientId clientSecret. (tok, clientId, clientSecret)),
      getData = (\<lambda>r c. case r of GoogleFitnessReader s e \<Rightarrow> Inr e)\<rparr>"

definition sampleWorld :: "(string \<rightharpoonup> bytes) \<Rightarrow> (sampleToken, sampleClient) world" where
  "sampleWorld fs = \<lparr>files = fs, ticks = 0, queries = 0, trace = []\<rparr>"

definition sampleConfig :: "string \<Rightarrow> config" where
  "sampleConfig service =
     \<lparr>Stanzas = [\<lparr>StanzaName = ''fitness://daily'',
                  Params = [\<lparr>Name = ''force_cert_validation'', Value = ''true''\<rparr>,
                            \<lparr>Name = ''FitnessService'', Value = service\<rparr>]\<rparr>],
      CheckpointDir = ''/opt/checkpoints'',
      SessionKey = ''session''\<rparr>"

definition userEntry :: "string \<Rightarrow> string \<Rightarrow> string \<Rightarrow> entry" where
  "userEntry ident realm secret =
     \<lparr>ID = ident,
      Keys = [\<lparr>KeyName = ''clear_password'', KeyValue = secret\<rparr>,
              \<lparr>KeyName = ''realm'', KeyValue = realm\<rparr>,
              \<lparr>KeyName = ''username'', KeyValue = ident\<rparr>]\<rparr>"

definition appEntry :: entry where
  "appEntry =
     \<lparr>ID = ''https://localhost:8089/storage/passwords/:1234.apps.googleusercontent.com:'',
      Keys = [\<lparr>KeyName = ''clear_password'', KeyValue = ''appsecret''\<rparr>,
              \<lparr>KeyName = ''realm'', KeyValue = []\<rparr>,
              \<lparr>KeyName = ''username'', KeyValue = ''1234.apps.googleusercontent.com''\<rparr>]\<rparr>"

text \<open>A store with the application's entry and one user of each of two services.\<close>

definition mixedStore :: "entry list" where
  "mixedStore =
     [appEntry, userEntry ''u1'' ''FitBit'' ''{A}'', userEntry ''u2'' ''GoogleFitness'' ''{B}'']"

definition sampleInput :: "string \<Rightarrow> fitnessInput" where
  "sampleInput service = \<lparr>ModInputConfig = Some (sampleConfig service)\<rparr>"

text \<open>The path of the sample checkpoint, and three states of that file.\<close>

definition samplePath :: string where
  "samplePath = ''/opt/checkpoints/daily''"

definition checkpointOf :: "time \<Rightarrow> bytes" where
  "checkpointOf t = (case timeMarshalBinary t of Inl err \<Rightarrow> [] | Inr g \<Rightarrow> g)"

definition anHourAhead :: "string \<rightharpoonup> bytes" where
  "anHourAhead = [samplePath \<mapsto> checkpointOf 1466470800000000000]"

definition anHourBehind :: "string \<rightharpoonup> bytes" where
  "anHourBehind = [samplePath \<mapsto> checkpointOf 1466463600000000000]"

definition corrupt :: "string \<rightharpoonup> bytes" where
  "corrupt = [samplePath \<mapsto> [2, 0, 0]]"

text \<open>
  Stores with two users of one service, a disk that takes no more writes, and
  an encoder that fails.
\<close>

definition twoUsers :: "string \<Rightarrow> entry list" where
  "twoUsers service = [appEntry, userEntry ''u1'' service ''{A}'', userEntry ''u2'' service ''{B}'']"

definition tokenA :: sampleToken where
  "tokenA = (''refreshA'', ''accessA'', ''2016-06-21'', ''Bearer'')"

definition tokenB :: sampleToken where
  "tokenB = (''refreshB'', ''accessB'', ''2016-06-22'', ''Bearer'')"

definition clientOf :: "sampleToken \<Rightarrow> sampleClient" where
  "clientOf tok = (tok, ''1234.apps.googleusercontent.com'', ''appsecret'')"

definition fullDisk :: "(sampleToken, sampleClient) env \<Rightarrow> (sampleToken, sampleClient) env" where
  "fullDisk env = env\<lparr>writeFault := \<lambda>p g. Some (''no space left on device'', None)\<rparr>"

definition noEncoder :: "(sampleToken, sampleClient) env \<Rightarrow> (sampleToken, sampleClient) env" where
  "noEncoder env = env\<lparr>GobEncode := \<lambda>t. Inl ''year outside of range''\<rparr>"

text \<open>
  A configuration that names two services, and the entry of an application of
  another provider.
\<close>

definition twoServices :: config where
  "twoServices =
     \<lparr>Stanzas = [\<lparr>StanzaName = ''fitness://daily'',
                  Params = [\<lparr>Name = ''FitnessService'', Value = ''Bad1''\<rparr>,
                            \<lparr>Name = ''FitnessService'', Value = ''Bad2''\<rparr>]\<rparr>],
      CheckpointDir = ''/opt/checkpoints'',
      SessionKey = ''session''\<rparr>"


section \<open>Notions used in the statements\<close>

text \<open>
  The segment of a name right behind the first separator, in the words of the
  description of the path: what follows the first occurrence, up to the next
  occurrence or the end of the name.
\<close>

definition segmentAfterFirst :: "string \<Rightarrow> string \<Rightarrow> string" where
  "segmentAfterFirst s sep =
     (case Index s sep of
        None \<Rightarrow> []
      | Some m \<Rightarrow>
          (let rest = drop (m + length sep) s
           in case Index rest sep of None \<Rightarrow> rest | Some k \<Rightarrow> take k rest))"

text \<open>
  In the words of the description: the value of a named field among some keys
  is the value of the last key of that name, and a default when there is none;
  the keys that count for the application credentials are those of the entries
  whose identifier contains the marker.
\<close>

definition fieldOr :: "string \<Rightarrow> string \<Rightarrow> key list \<Rightarrow> string" where
  "fieldOr d name ks =
     (case filter (\<lambda>k. KeyName k = name) ks of
        [] \<Rightarrow> d
      | x # xs \<Rightarrow> KeyValue (last (x # xs)))"


text \<open>
  An entry is for a strategy when one of its keys is a \<^verbatim>\<open>realm\<close> with that
  value; its secret is its \<^verbatim>\<open>clear_password\<close> field.
\<close>

definition realmIs :: "string \<Rightarrow> entry \<Rightarrow> bool" where
  "realmIs strategy e =
     list_ex (\<lambda>k. KeyName k = ''realm'' \<and> KeyValue k = strategy) (Keys e)"

definition decodesTo :: "('tok, 'cli) env \<Rightarrow> entry \<Rightarrow> 'tok \<Rightarrow> bool" where
  "decodesTo env e tok =
     (case jsonDecode env (fieldOr [] ''clear_password'' (Keys e)) of
        Inl err \<Rightarrow> False
      | Inr temp \<Rightarrow>
          tok = newToken env (RefreshToken temp) (AccessToken temp) (Expires temp) (TokenType temp))"

text \<open>
  A parameter is improper when it is named \<^verbatim>\<open>FitnessService\<close> and its value
  is none of the three strategies; the first improper parameter of a
  configuration is the first one in the order of the stanzas and of their
  parameters.
\<close>

definition improper :: "param \<Rightarrow> bool" where
  "improper p \<longleftrightarrow>
     Name p = STRATEGY_PARAM_NAME
     \<and> \<not> (Value p = STRATEGY_GOOGLE \<or> Value p = STRATEGY_FITBIT \<or> Value p = STRATEGY_MICROSOFT)"

definition firstImproper :: "config \<Rightarrow> param option" where
  "firstImproper cfg = find improper (concat (map Params (Stanzas cfg)))"

text \<open>The events that fetch data or write a file.\<close>

definition fetchOrWrite :: "('tok, 'cli) event \<Rightarrow> bool" where
  "fetchOrWrite ev =
     (case ev of EvGetData r c \<Rightarrow> True | EvWriteFile p g \<Rightarrow> True | _ \<Rightarrow> False)"

text \<open>
  A step is quiet when it leaves the files alone and only adds events that
  neither fetch nor write.
\<close>

definition quietly :: "('tok, 'cli) world \<Rightarrow> ('tok, 'cli) world \<Rightarrow> bool" where
  "quietly w w' \<longleftrightarrow>
     files w' = files w
     \<and> (\<exists>evs. trace w' = trace w @ evs \<and> list_all (\<lambda>ev. \<not> fetchOrWrite ev) evs)"

section \<open>The checkpoint path is defined exactly for a stanza name with a scheme\<close>

text \<open>\<open>Index\<close> finds an occurrence, and the first one.\<close>

lemma Index_occurs: "Index s sep = Some m \<Longrightarrow> take (length sep) (drop m s) = sep"
proof (induction s arbitrary: m)
  case Nil
  then show ?case by (simp add: Index.simps [of "[]"] split: if_splits)
next
  case (Cons c cs)
  show ?case
  proof (cases "take (length sep) (c # cs) = sep")
    case True
    with Cons.prems show ?thesis by (simp add: Index.simps [of "c # cs"])
  next
    case False
    with Cons.prems obtain m' where "Index cs sep = Some m'" "m = Suc m'"
      by (auto simp: Index.simps [of "c # cs"])
    with Cons.IH show ?thesis by simp
  qed
qed

lemma Index_first: "Index s sep = Some m \<Longrightarrow> i < m \<Longrightarrow> take (length sep) (drop i s) \<noteq> sep"
proof (induction s arbitrary: m i)
  case Nil
  then show ?case by (simp add: Index.simps [of "[]"] split: if_splits)
next
  case (Cons c cs)
  show ?case
  proof (cases "take (length sep) (c # cs) = sep")
    case True
    with Cons.prems show ?thesis by (simp add: Index.simps [of "c # cs"])
  next
    case False
    with Cons.prems obtain m' where m': "Index cs sep = Some m'" "m = Suc m'"
      by (auto simp: Index.simps [of "c # cs"])
    show ?thesis
    proof (cases i)
      case 0
      with False show ?thesis by simp
    next
      case (Suc j)
      with Cons.prems m' have "j < m'" by simp
      with Cons.IH m' have "take (length sep) (drop j cs) \<noteq> sep" by blast
      with Suc show ?thesis by simp
    qed
  qed
qed

lemma Index_None: "Index s sep = None \<Longrightarrow> take (length sep) (drop i s) \<noteq> sep"
proof (induction s arbitrary: i)
  case Nil
  then show ?case by (simp add: Index.simps [of "[]"] split: if_splits)
next
  case (Cons c cs)
  from Cons.prems have here: "take (length sep) (c # cs) \<noteq> sep" and "Index cs sep = None"
    by (auto simp: Index.simps [of "c # cs"] split: if_splits)
  with Cons.IH have "take (length sep) (drop j cs) \<noteq> sep" for j by blast
  with here show ?case by (cases i) simp_all
qed

lemma Split_no_separator: "sep \<noteq> [] \<Longrightarrow> Index s sep = None \<Longrightarrow> Split s sep = [s]"
  by (simp add: Split.simps [of s])

lemma Split_at_separator:
  "sep \<noteq> [] \<Longrightarrow> Index s sep = Some m \<Longrightarrow>
   Split s sep = take m s # Split (drop (m + length sep) s) sep"
  by (simp add: Split.simps [of s])

lemma Split_first:
  "sep \<noteq> [] \<Longrightarrow>
   \<exists>rest. Split s sep = (case Index s sep of None \<Rightarrow> s | Some k \<Rightarrow> take k s) # rest"
  by (cases "Index s sep") (simp_all add: Split_no_separator Split_at_separator)

lemma Split_second:
  assumes "sep \<noteq> []"
  shows "1 < length (Split s sep) \<longleftrightarrow> Contains s sep"
    and "Contains s sep \<Longrightarrow> Split s sep ! 1 = segmentAfterFirst s sep"
proof -
  show "1 < length (Split s sep) \<longleftrightarrow> Contains s sep"
  proof (cases "Index s sep")
    case None
    with assms show ?thesis by (simp add: Split_no_separator Contains_def)
  next
    case (Some m)
    from Split_first [OF assms, of "drop (m + length sep) s"]
    obtain x rest where "Split (drop (m + length sep) s) sep = x # rest" by blast
    with assms Some show ?thesis by (simp add: Split_at_separator Contains_def)
  qed
  show "Split s sep ! 1 = segmentAfterFirst s sep" if "Contains s sep"
  proof -
    from that obtain m where m: "Index s sep = Some m"
      by (auto simp: Contains_def)
    from Split_first [OF assms, of "drop (m + length sep) s"]
    obtain rest where
      "Split (drop (m + length sep) s) sep =
         (case Index (drop (m + length sep) s) sep of
            None \<Rightarrow> drop (m + length sep) s
          | Some k \<Rightarrow> take k (drop (m + length sep) s)) # rest"
      by blast
    with assms m show ?thesis
      by (simp add: Split_at_separator segmentAfterFirst_def Let_def)
  qed
qed

text \<open>
  Claim C10. \<^verbatim>\<open>getCheckPointPath\<close> returns a path exactly when the
  configuration has a first stanza whose name contains \<^verbatim>\<open>://\<close>; the path is
  then the checkpoint directory joined with the segment of that name right
  behind the first \<^verbatim>\<open>://\<close>. With no stanza, or with a first stanza name
  without \<^verbatim>\<open>://\<close>, the index expression is out of range and the call panics.
\<close>

theorem getCheckPointPath_scheme:
  "getCheckPointPath env \<lparr>ModInputConfig = Some cfg\<rparr> =
     (if Stanzas cfg \<noteq> [] \<and> Contains (StanzaName (hd (Stanzas cfg))) ''://''
      then Inr (pathJoin env (CheckpointDir cfg)
                  (segmentAfterFirst (StanzaName (hd (Stanzas cfg))) ''://''))
      else Inl (Panic ''index out of range''))"
proof (cases "Stanzas cfg")
  case Nil
  then show ?thesis by (simp add: getCheckPointPath_def)
next
  case (Cons st sts)
  have sep: "''://'' \<noteq> []" by simp
  show ?thesis
  proof (cases "Contains (StanzaName st) ''://''")
    case True
    with Cons Split_second [OF sep, of "StanzaName st"] show ?thesis
      by (simp add: getCheckPointPath_def Let_def)
  next
    case False
    with Cons Split_second(1) [OF sep, of "StanzaName st"] show ?thesis
      by (simp add: getCheckPointPath_def Let_def)
  qed
qed

theorem getCheckPointPath_scheme_witness:
  "getCheckPointPath (sampleEnv []) \<lparr>ModInputConfig = Some (sampleConfig ''GoogleFitness'')\<rparr>
     = Inr ''/opt/checkpoints/daily''
   \<and> getCheckPointPath (sampleEnv [])
       \<lparr>ModInputConfig = Some ((sampleConfig ''GoogleFitness'')\<lparr>Stanzas := []\<rparr>)\<rparr>
     = Inl (Panic ''index out of range'')
   \<and> getCheckPointPath (sampleEnv [])
       \<lparr>ModInputConfig = Some ((sampleConfig ''GoogleFitness'')
          \<lparr>Stanzas := [\<lparr>StanzaName = ''daily'', Params = []\<rparr>]\<rparr>)\<rparr>
     = Inl (Panic ''index out of range'')"
proof -
  have a: "Index ''fitness://daily'' ''://'' = Some 7"
    by code_simp
  have b: "Index ''daily'' ''://'' = None"
    by code_simp
  have c: "segmentAfterFirst ''fitness://daily'' ''://'' = ''daily''"
    by code_simp
  show ?thesis
    using getCheckPointPath_scheme [of "sampleEnv []" "sampleConfig ''GoogleFitness''"]
      getCheckPointPath_scheme [of "sampleEnv []" "(sampleConfig ''GoogleFitness'')\<lparr>Stanzas := []\<rparr>"]
      getCheckPointPath_scheme [of "sampleEnv []"
        "(sampleConfig ''GoogleFitness'')\<lparr>Stanzas := [\<lparr>StanzaName = ''daily'', Params = []\<rparr>]\<rparr>"]
    by (simp add: sampleConfig_def sampleEnv_def Contains_def a b c)
qed

text \<open>
  Reading and writing the checkpoint need the path: where \<^verbatim>\<open>getCheckPointPath\<close>
  panics, \<^verbatim>\<open>readCheckPoint\<close> panics before it reads, and \<^verbatim>\<open>writeCheckPoint\<close>
  panics after the encoding and before it writes.
\<close>

lemma readCheckPoint_needs_path:
  "getCheckPointPath env input = Inl f \<Longrightarrow> readCheckPoint env input w = (Inl f, w)"
  by (simp add: readCheckPoint_def)

lemma writeCheckPoint_needs_path:
  "getCheckPointPath env input = Inl f \<Longrightarrow> GobEncode env t = Inr g \<Longrightarrow>
   writeCheckPoint env input t w = (Inl f, w)"
  by (simp add: writeCheckPoint_def)

section \<open>Credential resolution\<close>

text \<open>\<open>Contains\<close> is containment: the text occurs somewhere in the string.\<close>

lemma Contains_iff: "Contains s substr \<longleftrightarrow> (\<exists>pre post. s = pre @ substr @ post)"
proof
  assume "Contains s substr"
  then obtain m where m: "Index s substr = Some m"
    by (auto simp: Contains_def)
  have "s = take m s @ take (length substr) (drop m s) @ drop (length substr) (drop m s)"
    by (simp only: append_take_drop_id)
  with Index_occurs [OF m] show "\<exists>pre post. s = pre @ substr @ post"
    by metis
next
  assume "\<exists>pre post. s = pre @ substr @ post"
  then obtain pre post where "s = pre @ substr @ post"
    by blast
  then have "take (length substr) (drop (length pre) s) = substr"
    by simp
  with Index_None [of s substr "length pre"] show "Contains s substr"
    by (auto simp: Contains_def)
qed

lemma fieldOr_Nil: "fieldOr d name [] = d"
  by (simp add: fieldOr_def)

lemma fieldOr_Cons:
  "fieldOr d name (k # ks) = fieldOr (if KeyName k = name then KeyValue k else d) name ks"
  by (simp add: fieldOr_def split: list.splits)








lemma getStrategy_value:
  "getStrategy \<lparr>ModInputConfig = Some cfg\<rparr> = Inr s \<Longrightarrow> s = strategyStanzas (Stanzas cfg) []"
  by (simp add: getStrategy_def Let_def split: if_splits)

lemma tokenKeys_result:
  assumes "tokenKeys \<lparr>ModInputConfig = Some cfg\<rparr> ks (b, j) = Inr (b', j')"
  shows "b' = (b \<or> list_ex (\<lambda>k. KeyName k = ''realm''
                  \<and> KeyValue k = strategyStanzas (Stanzas cfg) []) ks)
         \<and> j' = fieldOr j ''clear_password'' ks"
  using assms
proof (induction ks arbitrary: b j)
  case Nil
  then show ?case by (simp add: fieldOr_Nil)
next
  case (Cons k ks)
  show ?case
  proof (cases "KeyName k = ''clear_password''")
    case True
    with Cons.prems have "tokenKeys \<lparr>ModInputConfig = Some cfg\<rparr> ks (b, KeyValue k) = Inr (b', j')"
      by simp
    from Cons.IH [OF this] True show ?thesis
      by (simp add: fieldOr_Cons)
  next
    case notSecret: False
    show ?thesis
    proof (cases "KeyName k = ''realm''")
      case False
      with notSecret Cons.prems have "tokenKeys \<lparr>ModInputConfig = Some cfg\<rparr> ks (b, j) = Inr (b', j')"
        by simp
      from Cons.IH [OF this] False notSecret show ?thesis
        by (simp add: fieldOr_Cons)
    next
      case True
      with notSecret Cons.prems obtain s where s: "getStrategy \<lparr>ModInputConfig = Some cfg\<rparr> = Inr s"
        by (cases "getStrategy \<lparr>ModInputConfig = Some cfg\<rparr>") auto
      then have sval: "s = strategyStanzas (Stanzas cfg) []"
        by (rule getStrategy_value)
      from Cons.prems notSecret True s
      have "tokenKeys \<lparr>ModInputConfig = Some cfg\<rparr> ks (b \<or> KeyValue k = s, j) = Inr (b', j')"
        by (simp split: if_splits)
      from Cons.IH [OF this] True notSecret sval show ?thesis
        by (auto simp: fieldOr_Cons)
    qed
  qed
qed

lemma tokenEntries_result:
  assumes "tokenEntries env \<lparr>ModInputConfig = Some cfg\<rparr> es result = Inr toks"
  shows "\<exists>new. toks = result @ new
           \<and> list_all2 (decodesTo env)
               (filter (realmIs (strategyStanzas (Stanzas cfg) [])) es) new"
  using assms
proof (induction es arbitrary: result)
  case Nil
  then show ?case by simp
next
  case (Cons e es)
  from Cons.prems obtain b j where
    keys: "tokenKeys \<lparr>ModInputConfig = Some cfg\<rparr> (Keys e) (False, []) = Inr (b, j)"
    by (cases "tokenKeys \<lparr>ModInputConfig = Some cfg\<rparr> (Keys e) (False, [])") auto
  from tokenKeys_result [OF keys]
  have b: "b = realmIs (strategyStanzas (Stanzas cfg) []) e"
    and j: "j = fieldOr [] ''clear_password'' (Keys e)"
    by (simp_all add: realmIs_def)
  show ?case
  proof (cases b)
    case False
    with Cons.prems keys
    have "tokenEntries env \<lparr>ModInputConfig = Some cfg\<rparr> es result = Inr toks"
      by simp
    from Cons.IH [OF this] False b show ?thesis
      by simp
  next
    case True
    with Cons.prems keys obtain temp where temp: "jsonDecode env j = Inr temp"
      by (cases "jsonDecode env j") auto
    define tok where
      "tok = newToken env (RefreshToken temp) (AccessToken temp) (Expires temp) (TokenType temp)"
    from Cons.prems keys True temp
    have "tokenEntries env \<lparr>ModInputConfig = Some cfg\<rparr> es (result @ [tok]) = Inr toks"
      by (simp add: tok_def)
    from Cons.IH [OF this] obtain new where
      new: "toks = (result @ [tok]) @ new"
        "list_all2 (decodesTo env) (filter (realmIs (strategyStanzas (Stanzas cfg) [])) es) new"
      by blast
    have "decodesTo env e tok"
      using temp j by (simp add: decodesTo_def tok_def)
    with new True b show ?thesis
      by simp
  qed
qed

text \<open>
  Claim C4. When \<^verbatim>\<open>getTokens\<close> returns, its tokens are, in order, the decoded
  secrets of exactly the entries that have a \<^verbatim>\<open>realm\<close> key equal to the
  configured strategy: an entry without such a key contributes no token.
\<close>

theorem getTokens_only_matching_realm:
  assumes "getTokens env \<lparr>ModInputConfig = Some cfg\<rparr> w = (Inr toks, w')"
    and "store env (queries w) = Inr es"
  shows "list_all2 (decodesTo env) (filter (realmIs (strategyStanzas (Stanzas cfg) [])) es) toks"
proof -
  from assms have "tokenEntries env \<lparr>ModInputConfig = Some cfg\<rparr> es [] = Inr toks"
    by (simp add: getTokens_def GetEntities_def)
  from tokenEntries_result [OF this] show ?thesis
    by simp
qed

theorem getTokens_only_matching_realm_witness:
  "fst (getTokens (sampleEnv mixedStore) \<lparr>ModInputConfig = Some (sampleConfig ''GoogleFitness'')\<rparr>
          (sampleWorld Map.empty))
     = Inr [(''refreshB'', ''accessB'', ''2016-06-22'', ''Bearer'')]
   \<and> filter (realmIs ''GoogleFitness'') mixedStore = [userEntry ''u2'' ''GoogleFitness'' ''{B}'']
   \<and> list_all2 (decodesTo (sampleEnv mixedStore))
        (filter (realmIs (strategyStanzas (Stanzas (sampleConfig ''GoogleFitness'')) [])) mixedStore)
        [(''refreshB'', ''accessB'', ''2016-06-22'', ''Bearer'')]"
proof -
  have toks: "fst (getTokens (sampleEnv mixedStore)
        \<lparr>ModInputConfig = Some (sampleConfig ''GoogleFitness'')\<rparr> (sampleWorld Map.empty))
      = Inr [(''refreshB'', ''accessB'', ''2016-06-22'', ''Bearer'')]"
    by code_simp
  then have run: "getTokens (sampleEnv mixedStore)
        \<lparr>ModInputConfig = Some (sampleConfig ''GoogleFitness'')\<rparr> (sampleWorld Map.empty)
      = (Inr [(''refreshB'', ''accessB'', ''2016-06-22'', ''Bearer'')],
         snd (getTokens (sampleEnv mixedStore)
           \<lparr>ModInputConfig = Some (sampleConfig ''GoogleFitness'')\<rparr> (sampleWorld Map.empty)))"
    by (simp add: prod_eq_iff)
  have answer: "store (sampleEnv mixedStore) (queries (sampleWorld Map.empty)) = Inr mixedStore"
    by (simp add: sampleEnv_def)
  have only: "filter (realmIs ''GoogleFitness'') mixedStore = [userEntry ''u2'' ''GoogleFitness'' ''{B}'']"
    by code_simp
  from getTokens_only_matching_realm [OF run answer] toks only show ?thesis
    by simp
qed

section \<open>The sample codec reads back what it wrote\<close>

lemma bigEndian_Suc: "bigEndian (Suc n) v = word_of_int (v div 256 ^ n) # bigEndian n v"
  by (simp add: bigEndian_def)

lemma length_bigEndian: "length (bigEndian n v) = n"
  by (simp add: bigEndian_def)

lemma foldl_bytes_shift:
  "foldl (\<lambda>a b. a * 256 + uint b) a (bs :: bytes)
     = a * 256 ^ length bs + foldl (\<lambda>a b. a * 256 + uint b) 0 bs"
proof (induction bs arbitrary: a)
  case Nil
  show ?case by simp
next
  case (Cons b bs)
  from Cons.IH [of "a * 256 + uint b"] Cons.IH [of "uint b"] show ?case
    by (simp add: algebra_simps)
qed

lemma unsignedOf_Cons: "unsignedOf (b # bs) = uint b * 256 ^ length bs + unsignedOf bs"
  using foldl_bytes_shift [of "uint b" bs] by (simp add: unsignedOf_def)

lemma unsignedOf_bigEndian: "unsignedOf (bigEndian n v) = v mod 256 ^ n"
proof (induction n)
  case 0
  show ?case by (simp add: bigEndian_def unsignedOf_def)
next
  case (Suc n)
  have "uint (word_of_int (v div 256 ^ n) :: 8 word) = v div 256 ^ n mod 256"
    by (simp add: uint_word_of_int)
  moreover have "v mod (256 ^ n * 256) = 256 ^ n * (v div 256 ^ n mod 256) + v mod 256 ^ n"
    by (rule zmod_zmult2_eq) simp
  ultimately show ?case
    by (simp add: bigEndian_Suc unsignedOf_Cons length_bigEndian Suc.IH mult.commute)
qed

lemma signedOf_bigEndian:
  assumes "- (256 ^ n) \<le> 2 * v" and "2 * v < 256 ^ n"
  shows "signedOf (bigEndian n v) = v"
proof (cases "0 \<le> v")
  case True
  with assms have "v mod 256 ^ n = v"
    by simp
  with assms show ?thesis
    by (simp add: signedOf_def unsignedOf_bigEndian length_bigEndian)
next
  case False
  with assms have "0 \<le> v + 256 ^ n" "v + 256 ^ n < 256 ^ n"
    by simp_all
  then have "(v + 256 ^ n) mod 256 ^ n = v + 256 ^ n"
    by (rule mod_pos_pos_trivial)
  then have "v mod 256 ^ n = v + 256 ^ n"
    by simp
  with assms False show ?thesis
    by (simp add: signedOf_def unsignedOf_bigEndian length_bigEndian)
qed

lemma timeBinary_round_trip:
  assumes "timeMarshalBinary t = Inr g"
  shows "timeUnmarshalBinary g = Inr t"
proof -
  define sec where "sec = t div 1000000000 + unixToInternal"
  define nsec where "nsec = t mod 1000000000"
  from assms have range: "- (2 ^ 63) \<le> sec" "sec < 2 ^ 63"
    and g: "g = [1] @ bigEndian 8 sec @ bigEndian 4 nsec @ [255, 255]"
    by (auto simp: timeMarshalBinary_def sec_def nsec_def Let_def split: if_splits)
  have "0 \<le> nsec" "nsec < 1000000000"
    by (simp_all add: nsec_def)
  then have nsec: "signedOf (bigEndian 4 nsec) = nsec"
    by (intro signedOf_bigEndian) simp_all
  from range have sec: "signedOf (bigEndian 8 sec) = sec"
    by (intro signedOf_bigEndian) simp_all
  have parts: "take 8 (drop 1 g) = bigEndian 8 sec" "take 4 (drop 9 g) = bigEndian 4 nsec"
    "length g = 15" "hd g = 1"
    by (simp_all add: g length_bigEndian)
  have "(sec - unixToInternal) * 1000000000 + nsec = t"
    by (simp add: sec_def nsec_def)
  with parts sec nsec show ?thesis
    by (simp add: timeUnmarshalBinary_def)
qed

section \<open>Checkpoints\<close>

lemma writeCheckPoint_success:
  assumes "writeCheckPoint env input t w = (Inr (), w')"
  shows "\<exists>g p. GobEncode env t = Inr g \<and> getCheckPointPath env input = Inr p
           \<and> w' = emit (EvWriteFile p g) (w\<lparr>files := (files w)(p \<mapsto> g)\<rparr>)"
proof -
  from assms obtain g where g: "GobEncode env t = Inr g"
    by (cases "GobEncode env t") (auto simp: writeCheckPoint_def)
  with assms obtain p where p: "getCheckPointPath env input = Inr p"
    by (cases "getCheckPointPath env input") (auto simp: writeCheckPoint_def)
  with assms g have "writeFault env p g = None"
    by (cases "writeFault env p g") (auto simp: writeCheckPoint_def WriteFile_def)
  with assms g p show ?thesis
    by (simp add: writeCheckPoint_def WriteFile_def)
qed

text \<open>
  Claim C5. After \<^verbatim>\<open>writeCheckPoint\<close> has written the time \<open>T\<close>, and with a
  codec that decodes its encoding of \<open>T\<close> to \<open>T\<close>, \<^verbatim>\<open>readCheckPoint\<close> returns
  \<open>T\<close> and no error, and \<^verbatim>\<open>getTimes\<close> starts the next window at \<open>T\<close>.
\<close>

theorem checkpoint_round_trip:
  assumes "writeCheckPoint env input T w = (Inr (), w')"
    and "\<forall>g. GobEncode env T = Inr g \<longrightarrow> GobDecode env g = Inr T"
  shows "fst (readCheckPoint env input w') = Inr (T, None)
         \<and> fst (getTimes env input w') = Inr (T, clock env (ticks w'))"
proof -
  from writeCheckPoint_success [OF assms(1)] obtain g p where
    g: "GobEncode env T = Inr g" and p: "getCheckPointPath env input = Inr p"
    and w': "w' = emit (EvWriteFile p g) (w\<lparr>files := (files w)(p \<mapsto> g)\<rparr>)"
    by blast
  from g assms(2) have decoded: "GobDecode env g = Inr T"
    by blast
  from w' have "files w' p = Some g"
    by (simp add: emit_def)
  with p decoded have "readCheckPoint env input w' = (Inr (T, None), emit (EvReadFile p) w')"
    by (simp add: readCheckPoint_def ReadFile_def)
  then show ?thesis
    by (simp add: getTimes_def bindE_def Now_def emit_def)
qed

theorem checkpoint_round_trip_witness:
  "fst (writeCheckPoint (sampleEnv []) (sampleInput ''GoogleFitness'') 0 (sampleWorld Map.empty))
     = Inr ()
   \<and> fst (readCheckPoint (sampleEnv []) (sampleInput ''GoogleFitness'')
        (snd (writeCheckPoint (sampleEnv []) (sampleInput ''GoogleFitness'') 0
               (sampleWorld Map.empty))))
     = Inr (0, None)
   \<and> fst (writeCheckPoint (sampleEnv []) (sampleInput ''GoogleFitness'') 9223372036854775807
        (sampleWorld corrupt))
     = Inr ()
   \<and> fst (readCheckPoint (sampleEnv []) (sampleInput ''GoogleFitness'')
        (snd (writeCheckPoint (sampleEnv []) (sampleInput ''GoogleFitness'') 9223372036854775807
               (sampleWorld corrupt))))
     = Inr (9223372036854775807, None)"
proof -
  have codec: "\<forall>g. GobEncode (sampleEnv []) t = Inr g \<longrightarrow> GobDecode (sampleEnv []) g = Inr t" for t
    by (simp add: sampleEnv_def timeBinary_round_trip)
  have epoch: "fst (writeCheckPoint (sampleEnv []) (sampleInput ''GoogleFitness'') 0
      (sampleWorld Map.empty)) = Inr ()"
    by code_simp
  then have "writeCheckPoint (sampleEnv []) (sampleInput ''GoogleFitness'') 0 (sampleWorld Map.empty)
      = (Inr (), snd (writeCheckPoint (sampleEnv []) (sampleInput ''GoogleFitness'') 0
          (sampleWorld Map.empty)))"
    by (simp add: prod_eq_iff)
  from checkpoint_round_trip [OF this codec]
  have first: "fst (readCheckPoint (sampleEnv []) (sampleInput ''GoogleFitness'')
      (snd (writeCheckPoint (sampleEnv []) (sampleInput ''GoogleFitness'') 0
        (sampleWorld Map.empty)))) = Inr (0, None)"
    by simp
  have far: "fst (writeCheckPoint (sampleEnv []) (sampleInput ''GoogleFitness'')
      9223372036854775807 (sampleWorld corrupt)) = Inr ()"
    by code_simp
  then have "writeCheckPoint (sampleEnv []) (sampleInput ''GoogleFitness'') 9223372036854775807
        (sampleWorld corrupt)
      = (Inr (), snd (writeCheckPoint (sampleEnv []) (sampleInput ''GoogleFitness'')
          9223372036854775807 (sampleWorld corrupt)))"
    by (simp add: prod_eq_iff)
  from checkpoint_round_trip [OF this codec]
  have second: "fst (readCheckPoint (sampleEnv []) (sampleInput ''GoogleFitness'')
      (snd (writeCheckPoint (sampleEnv []) (sampleInput ''GoogleFitness'') 9223372036854775807
        (sampleWorld corrupt)))) = Inr (9223372036854775807, None)"
    by simp
  from epoch first far second show ?thesis
    by simp
qed

section \<open>The fetch window\<close>

lemma getTimes_cases:
  assumes "getCheckPointPath env input = Inr p"
  shows "fst (getTimes env input w) =
     (case files w p of
        None \<Rightarrow> Inr (clock env (Suc (ticks w)), clock env (Suc (Suc (ticks w))))
      | Some b \<Rightarrow>
          (case GobDecode env b of
             Inl err \<Rightarrow> Inr (clock env (Suc (ticks w)), clock env (Suc (Suc (ticks w))))
           | Inr t \<Rightarrow> Inr (t, clock env (ticks w))))"
  using assms
  by (simp add: getTimes_def readCheckPoint_def ReadFile_def bindE_def Now_def emit_def
      split: option.splits sum.splits)

lemma getTimes_path:
  assumes "getTimes env input w = (Inr r, w')"
  shows "\<exists>p. getCheckPointPath env input = Inr p"
  using assms
  by (cases "getCheckPointPath env input")
    (simp_all add: getTimes_def readCheckPoint_def bindE_def)

text \<open>
  Claim C6, as the code has it. With a clock that does not run backwards, the
  window that \<^verbatim>\<open>getTimes\<close> returns has its start at or before its end whenever
  the checkpoint file is absent, or cannot be decoded, or holds a time that is
  not later than the clock. (A checkpoint later than the clock becomes the
  start as it is.)
\<close>

theorem getTimes_window_ordered:
  assumes "getTimes env input w = (Inr (s, e), w')"
    and "\<forall>i j. i \<le> j \<longrightarrow> clock env i \<le> clock env j"
    and "\<forall>p b t. getCheckPointPath env input = Inr p \<and> files w p = Some b
            \<and> GobDecode env b = Inr t \<longrightarrow> t \<le> clock env (ticks w)"
  shows "s \<le> e"
proof -
  from getTimes_path [OF assms(1)] obtain p where p: "getCheckPointPath env input = Inr p"
    by blast
  from assms(2) have step: "clock env (Suc (ticks w)) \<le> clock env (Suc (Suc (ticks w)))"
    by simp
  from assms(1) have result: "fst (getTimes env input w) = Inr (s, e)"
    by simp
  show ?thesis
  proof (cases "files w p")
    case None
    with getTimes_cases [OF p, of w] result step show ?thesis
      by simp
  next
    case (Some b)
    show ?thesis
    proof (cases "GobDecode env b")
      case (Inl err)
      with Some getTimes_cases [OF p, of w] result step show ?thesis
        by simp
    next
      case (Inr t)
      with Some p assms(3) have "t \<le> clock env (ticks w)"
        by blast
      with Inr Some getTimes_cases [OF p, of w] result show ?thesis
        by simp
    qed
  qed
qed

theorem getTimes_window_ordered_witness:
  "fst (getTimes (sampleEnv []) (sampleInput ''GoogleFitness'') (sampleWorld anHourBehind))
     = Inr (1466463600000000000, 1466467200000000000)
   \<and> (1466463600000000000 :: int) \<le> 1466467200000000000
   \<and> fst (getTimes (sampleEnv []) (sampleInput ''GoogleFitness'') (sampleWorld Map.empty))
     = Inr (1466467201000000000, 1466467202000000000)
   \<and> (1466467201000000000 :: int) \<le> 1466467202000000000"
proof -
  have mono: "\<forall>i j. i \<le> j \<longrightarrow> clock (sampleEnv []) i \<le> clock (sampleEnv []) j"
    by (simp add: sampleEnv_def)
  have path: "getCheckPointPath (sampleEnv []) (sampleInput ''GoogleFitness'') = Inr samplePath"
    by code_simp
  have decoded: "GobDecode (sampleEnv []) (checkpointOf 1466463600000000000)
      = Inr 1466463600000000000"
    by code_simp
  have behind: "\<forall>p b t. getCheckPointPath (sampleEnv []) (sampleInput ''GoogleFitness'') = Inr p
      \<and> files (sampleWorld anHourBehind) p = Some b \<and> GobDecode (sampleEnv []) b = Inr t
      \<longrightarrow> t \<le> clock (sampleEnv []) (ticks (sampleWorld anHourBehind))"
  proof (intro allI impI, elim conjE)
    fix p b t
    assume "getCheckPointPath (sampleEnv []) (sampleInput ''GoogleFitness'') = Inr p"
      and content: "files (sampleWorld anHourBehind) p = Some b"
      and t: "GobDecode (sampleEnv []) b = Inr t"
    with path have "p = samplePath"
      by simp
    with content have "b = checkpointOf 1466463600000000000"
      by (simp add: sampleWorld_def anHourBehind_def)
    with t decoded have "t = 1466463600000000000"
      by simp
    then show "t \<le> clock (sampleEnv []) (ticks (sampleWorld anHourBehind))"
      by (simp add: sampleEnv_def sampleWorld_def)
  qed
  have absent: "\<forall>p b t. getCheckPointPath (sampleEnv []) (sampleInput ''GoogleFitness'') = Inr p
      \<and> files (sampleWorld Map.empty) p = Some b \<and> GobDecode (sampleEnv []) b = Inr t
      \<longrightarrow> t \<le> clock (sampleEnv []) (ticks (sampleWorld Map.empty))"
    by (simp add: sampleWorld_def)
  have one: "fst (getTimes (sampleEnv []) (sampleInput ''GoogleFitness'') (sampleWorld anHourBehind))
      = Inr (1466463600000000000, 1466467200000000000)"
    by code_simp
  then have "getTimes (sampleEnv []) (sampleInput ''GoogleFitness'') (sampleWorld anHourBehind)
      = (Inr (1466463600000000000, 1466467200000000000),
         snd (getTimes (sampleEnv []) (sampleInput ''GoogleFitness'') (sampleWorld anHourBehind)))"
    by (simp add: prod_eq_iff)
  from getTimes_window_ordered [OF this mono behind]
  have ordered: "(1466463600000000000 :: int) \<le> 1466467200000000000" .
  have two: "fst (getTimes (sampleEnv []) (sampleInput ''GoogleFitness'') (sampleWorld Map.empty))
      = Inr (1466467201000000000, 1466467202000000000)"
    by code_simp
  then have "getTimes (sampleEnv []) (sampleInput ''GoogleFitness'') (sampleWorld Map.empty)
      = (Inr (1466467201000000000, 1466467202000000000),
         snd (getTimes (sampleEnv []) (sampleInput ''GoogleFitness'') (sampleWorld Map.empty)))"
    by (simp add: prod_eq_iff)
  from getTimes_window_ordered [OF this mono absent]
  have "(1466467201000000000 :: int) \<le> 1466467202000000000" .
  with one two ordered show ?thesis
    by simp
qed

text \<open>
  Claim C6, as stated, fails: a checkpoint one hour ahead of the clock gives a
  window whose start is later than its end.
\<close>

theorem getTimes_future_checkpoint:
  "fst (getTimes (sampleEnv []) (sampleInput ''GoogleFitness'') (sampleWorld anHourAhead))
     = Inr (1466470800000000000, 1466467200000000000)
   \<and> \<not> (1466470800000000000 :: int) \<le> 1466467200000000000"
proof -
  have "fst (getTimes (sampleEnv []) (sampleInput ''GoogleFitness'') (sampleWorld anHourAhead))
      = Inr (1466470800000000000, 1466467200000000000)"
    by code_simp
  then show ?thesis
    by simp
qed

text \<open>
  What the two functions do with a checkpoint that cannot be decoded:
  \<^verbatim>\<open>readCheckPoint\<close> returns the clock less two hours together with the error,
  and \<^verbatim>\<open>getTimes\<close>, seeing the error, takes the clock again.
\<close>

lemma readCheckPoint_undecodable:
  assumes "getCheckPointPath env input = Inr p"
    and "files w p = Some b"
    and "GobDecode env b = Inl err"
  shows "fst (readCheckPoint env input w) = Inr (clock env (ticks w) - 2 * Hour, Some err)"
  using assms
  by (simp add: readCheckPoint_def ReadFile_def Now_def emit_def)

lemma getTimes_undecodable:
  assumes "getCheckPointPath env input = Inr p"
    and "files w p = Some b"
    and "GobDecode env b = Inl err"
  shows "fst (getTimes env input w)
     = Inr (clock env (Suc (ticks w)), clock env (Suc (Suc (ticks w))))"
  using assms getTimes_cases [OF assms(1), of w]
  by simp

text \<open>
  Claim C1 on the sample: the checkpoint file holds three bytes that are no
  time. \<^verbatim>\<open>readCheckPoint\<close> returns two hours before the first reading of the
  clock, and the window of \<^verbatim>\<open>getTimes\<close> starts at the second reading, not two
  hours before it; the call returns, so the run goes on.
\<close>

theorem getTimes_corrupt_checkpoint:
  "fst (readCheckPoint (sampleEnv []) (sampleInput ''GoogleFitness'') (sampleWorld corrupt))
     = Inr (1466460000000000000, Some ''Time.UnmarshalBinary: unsupported version'')
   \<and> fst (getTimes (sampleEnv []) (sampleInput ''GoogleFitness'') (sampleWorld corrupt))
     = Inr (1466467201000000000, 1466467202000000000)"
proof -
  have "fst (readCheckPoint (sampleEnv []) (sampleInput ''GoogleFitness'') (sampleWorld corrupt))
      = Inr (1466460000000000000, Some ''Time.UnmarshalBinary: unsupported version'')"
    by code_simp
  moreover
  have "fst (getTimes (sampleEnv []) (sampleInput ''GoogleFitness'') (sampleWorld corrupt))
      = Inr (1466467201000000000, 1466467202000000000)"
    by code_simp
  ultimately show ?thesis
    by simp
qed

section \<open>What a run does\<close>

lemma quietly_refl: "quietly w w"
  by (simp add: quietly_def)

lemma quietly_trans: "quietly w w' \<Longrightarrow> quietly w' w'' \<Longrightarrow> quietly w w''"
  by (auto simp: quietly_def)

lemma quietly_emit: "\<not> fetchOrWrite ev \<Longrightarrow> quietly w (emit ev w)"
  by (simp add: quietly_def emit_def)

lemma getAppCredentials_quiet:
  "getAppCredentials env input w = (r, w') \<Longrightarrow> quietly w w'"
  by (auto simp: getAppCredentials_def GetEntities_def quietly_def emit_def fetchOrWrite_def
      split: option.splits sum.splits)

lemma getTimes_quiet: "getTimes env input w = (r, w') \<Longrightarrow> quietly w w'"
  by (auto simp: getTimes_def readCheckPoint_def ReadFile_def bindE_def Now_def quietly_def
      emit_def fetchOrWrite_def split: option.splits sum.splits if_splits)

lemma getTokens_first_event:
  "snd (getTokens env \<lparr>ModInputConfig = Some cfg\<rparr> w)
     = emit (EvGetEntities (SessionKey cfg)) (w\<lparr>queries := Suc (queries w)\<rparr>)"
  by (simp add: getTokens_def GetEntities_def split: sum.splits)

lemma forTokens_append:
  "forTokens env input (xs @ ys) w =
     (case forTokens env input xs w of
        (Inl f, w') \<Rightarrow> (Inl f, w')
      | (Inr u, w') \<Rightarrow> forTokens env input ys w')"
  by (induction xs arbitrary: w) (auto split: prod.splits sum.splits)

text \<open>\<^verbatim>\<open>getReaderStrategy\<close> has a reader for Google's strategy and for no other.\<close>

lemma getReaderStrategy_only_google:
  assumes "getStrategy input = Inr s"
  shows "getReaderStrategy input a b =
     (if s = STRATEGY_GOOGLE then Inr (Inr (GoogleFitnessReader a b))
      else Inr (Inl (''Unsupported reader requested: '' @ s)))"
  using assms by (simp add: getReaderStrategy_def)

text \<open>With a strategy other than Google's, the body of the loop ends the run quietly.\<close>

lemma forToken_unsupported:
  assumes "getStrategy input = Inr s" and "s \<noteq> STRATEGY_GOOGLE"
    and "forToken env input token w = (r, w')"
  shows "quietly w w' \<and> (\<exists>f. r = Inl f)"
proof (cases "getAppCredentials env input w")
  case (Pair rc wa)
  then have qa: "quietly w wa"
    by (rule getAppCredentials_quiet)
  show ?thesis
  proof (cases rc)
    case (Inl f)
    with Pair assms(3) have "r = Inl f" "w' = wa"
      by (simp_all add: forToken_def bindE_def)
    with qa show ?thesis
      by simp
  next
    case (Inr cred)
    obtain clientId clientSecret where cred: "cred = (clientId, clientSecret)"
      by (cases cred)
    define wb where "wb = emit (EvGetClient token clientId clientSecret) wa"
    have qb: "quietly wa wb"
      unfolding wb_def by (rule quietly_emit) (simp add: fetchOrWrite_def)
    obtain rt wc where times: "getTimes env input wb = (rt, wc)"
      by (cases "getTimes env input wb")
    then have qc: "quietly wb wc"
      by (rule getTimes_quiet)
    from qa qb qc have q: "quietly w wc"
      by (blast intro: quietly_trans)
    from assms(2) have reader:
      "getReaderStrategy input a b = Inr (Inl (''Unsupported reader requested: '' @ s))" for a b
      by (simp add: getReaderStrategy_only_google [OF assms(1)])
    show ?thesis
    proof (cases rt)
      case (Inl f)
      with Pair Inr cred times assms(3) have "r = Inl f" "w' = wc"
        by (simp_all add: forToken_def bindE_def wb_def)
      with q show ?thesis
        by simp
    next
      case inner: (Inr window)
      obtain a b where "window = (a, b)"
        by (cases window)
      with inner Pair Inr cred times assms(3) reader
      have "r = Inl (Fatal (''Unsupported reader requested: '' @ s))" "w' = wc"
        by (simp_all add: forToken_def bindE_def wb_def)
      with q show ?thesis
        by simp
    qed
  qed
qed

lemma forTokens_unsupported:
  assumes "getStrategy input = Inr s" and "s \<noteq> STRATEGY_GOOGLE"
    and "forTokens env input tokens w = (r, w')"
  shows "quietly w w'"
proof (cases tokens)
  case Nil
  with assms(3) show ?thesis
    by (simp add: quietly_refl)
next
  case (Cons token rest)
  obtain r1 w1 where one: "forToken env input token w = (r1, w1)"
    by (cases "forToken env input token w")
  from forToken_unsupported [OF assms(1,2) one] obtain f where "quietly w w1" "r1 = Inl f"
    by blast
  with Cons one assms(3) show ?thesis
    by simp
qed

text \<open>A strategy that \<^verbatim>\<open>getStrategy\<close> found was the value of some parameter.\<close>

lemma strategyParams_source:
  "strategyParams ps s0 \<noteq> s0 \<Longrightarrow>
   \<exists>p \<in> set ps. Name p = STRATEGY_PARAM_NAME \<and> Value p = strategyParams ps s0"
proof (induction ps arbitrary: s0)
  case Nil
  then show ?case by simp
next
  case (Cons p ps)
  define s1 where "s1 = (if Name p = STRATEGY_PARAM_NAME then Value p else s0)"
  have eq: "strategyParams (p # ps) s0 = strategyParams ps s1"
    by (simp add: s1_def)
  show ?case
  proof (cases "strategyParams ps s1 = s1")
    case True
    with Cons.prems eq have "s1 \<noteq> s0"
      by simp
    then have "Name p = STRATEGY_PARAM_NAME" "Value p = s1"
      by (simp_all add: s1_def split: if_splits)
    with True eq show ?thesis
      by simp
  next
    case False
    from Cons.IH [OF this] eq show ?thesis
      by auto
  qed
qed

lemma strategyStanzas_source:
  "strategyStanzas sts s0 \<noteq> s0 \<Longrightarrow>
   \<exists>st \<in> set sts. \<exists>p \<in> set (Params st).
      Name p = STRATEGY_PARAM_NAME \<and> Value p = strategyStanzas sts s0"
proof (induction sts arbitrary: s0)
  case Nil
  then show ?case by simp
next
  case (Cons st sts)
  define s1 where "s1 = strategyParams (Params st) s0"
  have eq: "strategyStanzas (st # sts) s0 = strategyStanzas sts s1"
    by (simp add: s1_def)
  show ?case
  proof (cases "strategyStanzas sts s1 = s1")
    case True
    with Cons.prems eq have "strategyParams (Params st) s0 \<noteq> s0"
      by (simp add: s1_def)
    from strategyParams_source [OF this] True eq show ?thesis
      by (auto simp: s1_def)
  next
    case False
    from Cons.IH [OF this] eq show ?thesis
      by auto
  qed
qed

text \<open>
  \<^verbatim>\<open>ValidateScheme\<close> answers with the first improper parameter, in the order of
  the stanzas and of their parameters, and accepts when there is none.
\<close>

lemma validateParams_find:
  "validateParams ps =
     map_option
       (\<lambda>p. (False, ''Improper service '' @ quote @ Value p @ quote @ '' name indicated.''))
       (find improper ps)"
  by (induction ps) (simp_all add: improper_def)

lemma find_append_first:
  "find P (xs @ ys) = (case find P xs of None \<Rightarrow> find P ys | Some x \<Rightarrow> Some x)"
  by (induction xs) simp_all

lemma validateStanzas_find:
  "validateStanzas sts =
     map_option
       (\<lambda>p. (False, ''Improper service '' @ quote @ Value p @ quote @ '' name indicated.''))
       (find improper (concat (map Params sts)))"
  by (induction sts) (simp_all add: validateParams_find find_append_first split: option.splits)

lemma ValidateScheme_first_improper:
  "ValidateScheme (Some cfg, None) =
     (case firstImproper cfg of
        None \<Rightarrow> Inr (True, [])
      | Some p \<Rightarrow>
          Inr (False, ''Improper service '' @ quote @ Value p @ quote @ '' name indicated.''))"
  by (simp add: ValidateScheme_def validateStanzas_find firstImproper_def split: option.splits)

lemma find_in_set: "find P xs = Some x \<Longrightarrow> x \<in> set xs \<and> P x"
  by (induction xs) (auto split: if_splits)

lemma find_exists: "x \<in> set xs \<Longrightarrow> P x \<Longrightarrow> \<exists>y. find P xs = Some y"
  by (induction xs) auto

text \<open>
  Claim C3, as the code has it. For a configuration whose strategy, as
  \<^verbatim>\<open>getStrategy\<close> resolves it, is none of the three known ones,
  \<^verbatim>\<open>ValidateScheme\<close>, which reads nothing but the configuration, answers false
  with the message about an improper service; the message names the value of
  the first parameter \<^verbatim>\<open>FitnessService\<close> that is none of the three, which is
  the resolved strategy whenever all parameters of that name agree.
  \<^verbatim>\<open>StreamEvents\<close> does not validate: it begins by asking the store, and then
  neither fetches data nor writes or changes any file.
\<close>

theorem unknown_strategy_run:
  assumes "getStrategy \<lparr>ModInputConfig = Some cfg\<rparr> = Inr s"
    and "s \<notin> {STRATEGY_GOOGLE, STRATEGY_FITBIT, STRATEGY_MICROSOFT}"
  shows "(\<exists>p. firstImproper cfg = Some p
            \<and> ValidateScheme (Some cfg, None)
                = Inr (False, ''Improper service '' @ quote @ Value p @ quote @ '' name indicated.''))
         \<and> ((\<forall>q \<in> set (concat (map Params (Stanzas cfg))).
                Name q = STRATEGY_PARAM_NAME \<longrightarrow> Value q = s) \<longrightarrow>
              ValidateScheme (Some cfg, None)
                = Inr (False, ''Improper service '' @ quote @ s @ quote @ '' name indicated.''))
         \<and> files (snd (StreamEvents env (Some cfg, None) w)) = files w
         \<and> (\<exists>evs. trace (snd (StreamEvents env (Some cfg, None) w))
                     = trace w @ EvGetEntities (SessionKey cfg) # evs
                   \<and> list_all (\<lambda>ev. \<not> fetchOrWrite ev) evs)"
proof -
  let ?input = "\<lparr>ModInputConfig = Some cfg\<rparr>"
  let ?all = "concat (map Params (Stanzas cfg))"
  from assms(1) have s: "s = strategyStanzas (Stanzas cfg) []" "s \<noteq> []"
    by (auto simp: getStrategy_def Let_def split: if_splits)
  then have "strategyStanzas (Stanzas cfg) [] \<noteq> []"
    by simp
  from strategyStanzas_source [OF this] obtain st p0 where
    "st \<in> set (Stanzas cfg)" "p0 \<in> set (Params st)" "Name p0 = STRATEGY_PARAM_NAME"
    "Value p0 = strategyStanzas (Stanzas cfg) []"
    by blast
  with s assms(2) have "p0 \<in> set ?all" "improper p0"
    by (auto simp: improper_def)
  then obtain p where p: "firstImproper cfg = Some p"
    using find_exists [of p0 ?all improper] by (auto simp: firstImproper_def)
  then have answer: "ValidateScheme (Some cfg, None)
      = Inr (False, ''Improper service '' @ quote @ Value p @ quote @ '' name indicated.'')"
    by (simp add: ValidateScheme_first_improper)
  from p have "p \<in> set ?all" "Name p = STRATEGY_PARAM_NAME"
    using find_in_set [of improper ?all p] by (simp_all add: firstImproper_def improper_def)
  with answer have agree: "(\<forall>q \<in> set ?all. Name q = STRATEGY_PARAM_NAME \<longrightarrow> Value q = s) \<longrightarrow>
      ValidateScheme (Some cfg, None)
        = Inr (False, ''Improper service '' @ quote @ s @ quote @ '' name indicated.'')"
    by auto
  from assms(2) have notGoogle: "s \<noteq> STRATEGY_GOOGLE"
    by simp
  obtain rt w1 where tokens: "getTokens env ?input w = (rt, w1)"
    by (cases "getTokens env ?input w")
  with getTokens_first_event [of env cfg w]
  have w1: "w1 = emit (EvGetEntities (SessionKey cfg)) (w\<lparr>queries := Suc (queries w)\<rparr>)"
    by simp
  have "quietly w1 (snd (StreamEvents env (Some cfg, None) w))"
  proof (cases rt)
    case (Inl f)
    with tokens show ?thesis
      by (simp add: StreamEvents_def bindE_def quietly_refl)
  next
    case (Inr toks)
    obtain r w2 where loop: "forTokens env ?input toks w1 = (r, w2)"
      by (cases "forTokens env ?input toks w1")
    from forTokens_unsupported [OF assms(1) notGoogle loop] have "quietly w1 w2" .
    with Inr tokens loop show ?thesis
      by (simp add: StreamEvents_def bindE_def)
  qed
  with w1 have "files (snd (StreamEvents env (Some cfg, None) w)) = files w
      \<and> (\<exists>evs. trace (snd (StreamEvents env (Some cfg, None) w))
                  = trace w @ EvGetEntities (SessionKey cfg) # evs
                \<and> list_all (\<lambda>ev. \<not> fetchOrWrite ev) evs)"
    by (auto simp: quietly_def emit_def)
  with p answer agree show ?thesis
    by blast
qed

theorem unknown_strategy_run_witness:
  "getStrategy \<lparr>ModInputConfig = Some (sampleConfig ''Unknown'')\<rparr> = Inr ''Unknown''
   \<and> ''Unknown'' \<notin> {STRATEGY_GOOGLE, STRATEGY_FITBIT, STRATEGY_MICROSOFT}
   \<and> ValidateScheme (Some (sampleConfig ''Unknown''), None)
       = Inr (False, ''Improper service '' @ quote @ ''Unknown'' @ quote @ '' name indicated.'')
   \<and> files (snd (StreamEvents (sampleEnv (twoUsers ''Unknown''))
        (Some (sampleConfig ''Unknown''), None) (sampleWorld corrupt))) = corrupt
   \<and> getStrategy \<lparr>ModInputConfig = Some twoServices\<rparr> = Inr ''Bad2''
   \<and> ''Bad2'' \<notin> {STRATEGY_GOOGLE, STRATEGY_FITBIT, STRATEGY_MICROSOFT}
   \<and> firstImproper twoServices = Some \<lparr>Name = ''FitnessService'', Value = ''Bad1''\<rparr>
   \<and> ValidateScheme (Some twoServices, None)
       = Inr (False, ''Improper service '' @ quote @ ''Bad1'' @ quote @ '' name indicated.'')"
proof -
  have strategy: "getStrategy \<lparr>ModInputConfig = Some (sampleConfig ''Unknown'')\<rparr> = Inr ''Unknown''"
    by code_simp
  have unknown: "''Unknown'' \<notin> {STRATEGY_GOOGLE, STRATEGY_FITBIT, STRATEGY_MICROSOFT}"
    by (simp add: STRATEGY_GOOGLE_def STRATEGY_FITBIT_def STRATEGY_MICROSOFT_def)
  have single: "\<forall>q \<in> set (concat (map Params (Stanzas (sampleConfig ''Unknown'')))).
      Name q = STRATEGY_PARAM_NAME \<longrightarrow> Value q = ''Unknown''"
    by (simp add: sampleConfig_def STRATEGY_PARAM_NAME_def)
  note run = unknown_strategy_run [OF strategy unknown, of "sampleEnv (twoUsers ''Unknown'')"
      "sampleWorld corrupt"]
  from run single
  have rejected: "ValidateScheme (Some (sampleConfig ''Unknown''), None)
      = Inr (False, ''Improper service '' @ quote @ ''Unknown'' @ quote @ '' name indicated.'')"
    by blast
  from run
  have kept: "files (snd (StreamEvents (sampleEnv (twoUsers ''Unknown''))
      (Some (sampleConfig ''Unknown''), None) (sampleWorld corrupt))) = corrupt"
    by (simp add: sampleWorld_def)
  have last: "getStrategy \<lparr>ModInputConfig = Some twoServices\<rparr> = Inr ''Bad2''"
    by code_simp
  have bad: "''Bad2'' \<notin> {STRATEGY_GOOGLE, STRATEGY_FITBIT, STRATEGY_MICROSOFT}"
    by (simp add: STRATEGY_GOOGLE_def STRATEGY_FITBIT_def STRATEGY_MICROSOFT_def)
  have first: "firstImproper twoServices = Some \<lparr>Name = ''FitnessService'', Value = ''Bad1''\<rparr>"
    by code_simp
  from unknown_strategy_run [OF last bad, of "sampleEnv []" "sampleWorld Map.empty",
      THEN conjunct1] first
  have named: "ValidateScheme (Some twoServices, None)
      = Inr (False, ''Improper service '' @ quote @ ''Bad1'' @ quote @ '' name indicated.'')"
    by simp
  from strategy unknown rejected kept last bad first named show ?thesis
    by simp
qed

text \<open>
  Claim C3, as stated, fails. With the strategy \<^verbatim>\<open>Unknown\<close> and no user of
  that name in the store, the run asks the store and ends without any error;
  with such a user it asks the store twice and reads the checkpoint file
  before it ends.
\<close>

theorem unknown_strategy_queries_store:
  "fst (StreamEvents (sampleEnv [appEntry]) (Some (sampleConfig ''Unknown''), None)
          (sampleWorld Map.empty)) = Inr ()
   \<and> trace (snd (StreamEvents (sampleEnv [appEntry]) (Some (sampleConfig ''Unknown''), None)
          (sampleWorld Map.empty))) = [EvGetEntities ''session'']
   \<and> fst (StreamEvents (sampleEnv (twoUsers ''Unknown'')) (Some (sampleConfig ''Unknown''), None)
          (sampleWorld Map.empty)) = Inl (Fatal ''Unsupported reader requested: Unknown'')
   \<and> trace (snd (StreamEvents (sampleEnv (twoUsers ''Unknown''))
          (Some (sampleConfig ''Unknown''), None) (sampleWorld Map.empty)))
       = [EvGetEntities ''session'', EvGetEntities ''session'',
          EvGetClient tokenA ''1234.apps.googleusercontent.com'' ''appsecret'',
          EvReadFile samplePath, EvLog ''Unable to read checkpoint file'']"
proof -
  have "fst (StreamEvents (sampleEnv [appEntry]) (Some (sampleConfig ''Unknown''), None)
      (sampleWorld Map.empty)) = Inr ()"
    by code_simp
  moreover
  have "trace (snd (StreamEvents (sampleEnv [appEntry]) (Some (sampleConfig ''Unknown''), None)
      (sampleWorld Map.empty))) = [EvGetEntities ''session'']"
    by code_simp
  moreover
  have "fst (StreamEvents (sampleEnv (twoUsers ''Unknown'')) (Some (sampleConfig ''Unknown''), None)
      (sampleWorld Map.empty)) = Inl (Fatal ''Unsupported reader requested: Unknown'')"
    by code_simp
  moreover
  have "trace (snd (StreamEvents (sampleEnv (twoUsers ''Unknown''))
        (Some (sampleConfig ''Unknown''), None) (sampleWorld Map.empty)))
      = [EvGetEntities ''session'', EvGetEntities ''session'',
         EvGetClient tokenA ''1234.apps.googleusercontent.com'' ''appsecret'',
         EvReadFile samplePath, EvLog ''Unable to read checkpoint file'']"
    by code_simp
  ultimately show ?thesis
    by simp
qed

text \<open>
  Claim C2 on the sample: the configuration selects \<^verbatim>\<open>FitBit\<close> and the store
  holds two users of that realm. \<^verbatim>\<open>getTokens\<close> finds both, but
  \<^verbatim>\<open>getReaderStrategy\<close> has no reader for \<^verbatim>\<open>FitBit\<close>: the run ends fatally
  for the first of them, and \<^verbatim>\<open>getData\<close> is never called.
\<close>

theorem fitbit_has_no_reader:
  "fst (getTokens (sampleEnv (twoUsers ''FitBit'')) (sampleInput ''FitBit'') (sampleWorld Map.empty))
     = Inr [tokenA, tokenB]
   \<and> getReaderStrategy (sampleInput ''FitBit'') 0 1
     = Inr (Inl ''Unsupported reader requested: FitBit'')
   \<and> fst (StreamEvents (sampleEnv (twoUsers ''FitBit'')) (Some (sampleConfig ''FitBit''), None)
          (sampleWorld Map.empty)) = Inl (Fatal ''Unsupported reader requested: FitBit'')
   \<and> trace (snd (StreamEvents (sampleEnv (twoUsers ''FitBit''))
          (Some (sampleConfig ''FitBit''), None) (sampleWorld Map.empty)))
       = [EvGetEntities ''session'', EvGetEntities ''session'',
          EvGetClient tokenA ''1234.apps.googleusercontent.com'' ''appsecret'',
          EvReadFile samplePath, EvLog ''Unable to read checkpoint file'']"
proof -
  have "fst (getTokens (sampleEnv (twoUsers ''FitBit'')) (sampleInput ''FitBit'')
      (sampleWorld Map.empty)) = Inr [tokenA, tokenB]"
    by code_simp
  moreover
  have "getReaderStrategy (sampleInput ''FitBit'') 0 1
      = Inr (Inl ''Unsupported reader requested: FitBit'')"
    by code_simp
  moreover
  have "fst (StreamEvents (sampleEnv (twoUsers ''FitBit'')) (Some (sampleConfig ''FitBit''), None)
      (sampleWorld Map.empty)) = Inl (Fatal ''Unsupported reader requested: FitBit'')"
    by code_simp
  moreover
  have "trace (snd (StreamEvents (sampleEnv (twoUsers ''FitBit''))
        (Some (sampleConfig ''FitBit''), None) (sampleWorld Map.empty)))
      = [EvGetEntities ''session'', EvGetEntities ''session'',
         EvGetClient tokenA ''1234.apps.googleusercontent.com'' ''appsecret'',
         EvReadFile samplePath, EvLog ''Unable to read checkpoint file'']"
    by code_simp
  ultimately show ?thesis
    by simp
qed

text \<open>
  Claim C7. When \<^verbatim>\<open>getTokens\<close> returns no token, \<^verbatim>\<open>StreamEvents\<close> returns
  without an error, and all it has done is the one query of the store: no
  client, no fetch, no reading of the clock, no file touched.
\<close>

theorem no_tokens_no_work:
  assumes "w1 = (if err \<noteq> None
                 then emit (EvLog ''Unable to read Modular Input config from reader.'') w
                 else w)"
    and "getTokens env \<lparr>ModInputConfig = config\<rparr> w1 = (Inr [], w')"
  shows "StreamEvents env (config, err) w = (Inr (), w')
         \<and> (\<exists>sessionKey. trace w' = trace w1 @ [EvGetEntities sessionKey])
         \<and> files w' = files w \<and> ticks w' = ticks w"
proof -
  from assms have run: "StreamEvents env (config, err) w = (Inr (), w')"
    by (simp add: StreamEvents_def bindE_def)
  from assms(2) obtain cfg where cfg: "config = Some cfg"
    by (cases config) (auto simp: getTokens_def)
  with assms(2) getTokens_first_event [of env cfg w1]
  have "w' = emit (EvGetEntities (SessionKey cfg)) (w1\<lparr>queries := Suc (queries w1)\<rparr>)"
    by simp
  with assms(1) run show ?thesis
    by (simp add: emit_def)
qed

theorem no_tokens_no_work_witness:
  "fst (getTokens (sampleEnv (twoUsers ''FitBit'')) (sampleInput ''GoogleFitness'')
          (sampleWorld corrupt)) = Inr []
   \<and> fst (StreamEvents (sampleEnv (twoUsers ''FitBit'')) (Some (sampleConfig ''GoogleFitness''), None)
          (sampleWorld corrupt)) = Inr ()
   \<and> trace (snd (StreamEvents (sampleEnv (twoUsers ''FitBit''))
          (Some (sampleConfig ''GoogleFitness''), None) (sampleWorld corrupt)))
       = [EvGetEntities ''session'']
   \<and> files (snd (StreamEvents (sampleEnv (twoUsers ''FitBit''))
          (Some (sampleConfig ''GoogleFitness''), None) (sampleWorld corrupt))) = corrupt"
proof -
  let ?env = "sampleEnv (twoUsers ''FitBit'')"
  let ?w = "sampleWorld corrupt"
  have none: "fst (getTokens ?env (sampleInput ''GoogleFitness'') ?w) = Inr []"
    by code_simp
  then have tokens: "getTokens ?env \<lparr>ModInputConfig = Some (sampleConfig ''GoogleFitness'')\<rparr> ?w
      = (Inr [], snd (getTokens ?env (sampleInput ''GoogleFitness'') ?w))"
    by (simp add: prod_eq_iff sampleInput_def)
  have start: "?w = (if (None :: string option) \<noteq> None
      then emit (EvLog ''Unable to read Modular Input config from reader.'') ?w else ?w)"
    by simp
  from no_tokens_no_work [OF start tokens]
  have run: "StreamEvents ?env (Some (sampleConfig ''GoogleFitness''), None) ?w
        = (Inr (), snd (getTokens ?env (sampleInput ''GoogleFitness'') ?w))"
    and kept: "files (snd (getTokens ?env (sampleInput ''GoogleFitness'') ?w)) = files ?w"
    by simp_all
  have events: "trace (snd (StreamEvents ?env (Some (sampleConfig ''GoogleFitness''), None) ?w))
      = [EvGetEntities ''session'']"
    by code_simp
  from run kept none events show ?thesis
    by (simp add: sampleWorld_def)
qed

text \<open>
  \<^verbatim>\<open>writeCheckPoint\<close> turns an error of the encoder and an error of the write
  into a fatal failure; after the first nothing has been written, after the
  second the file is what the failed write left.
\<close>

lemma writeCheckPoint_encode_error:
  "GobEncode env t = Inl err \<Longrightarrow>
   writeCheckPoint env input t w
     = (Inl (Fatal (''Unable to encode checkpoint time: '' @ err)), w)"
  by (simp add: writeCheckPoint_def)

lemma writeCheckPoint_write_error:
  "GobEncode env t = Inr g \<Longrightarrow> getCheckPointPath env input = Inr p \<Longrightarrow>
   writeFault env p g = Some (err, left) \<Longrightarrow>
   writeCheckPoint env input t w
     = (Inl (Fatal (''Error writing checkpoint file: '' @ err)),
        emit (EvWriteFile p g) (w\<lparr>files := (files w)(p := left)\<rparr>))"
  by (simp add: writeCheckPoint_def WriteFile_def)

text \<open>A failure of \<^verbatim>\<open>writeCheckPoint\<close> behind a successful \<^verbatim>\<open>getTimes\<close> is one of the two.\<close>

lemma writeCheckPoint_failure:
  assumes "writeCheckPoint env input t w = (Inl f, w')"
    and "getCheckPointPath env input = Inr p"
  shows "(\<exists>err. GobEncode env t = Inl err
            \<and> f = Fatal (''Unable to encode checkpoint time: '' @ err) \<and> w' = w)
         \<or> (\<exists>g err left. GobEncode env t = Inr g \<and> writeFault env p g = Some (err, left)
            \<and> f = Fatal (''Error writing checkpoint file: '' @ err)
            \<and> w' = emit (EvWriteFile p g) (w\<lparr>files := (files w)(p := left)\<rparr>))"
proof (cases "GobEncode env t")
  case (Inl err)
  with assms show ?thesis
    by (simp add: writeCheckPoint_def)
next
  case (Inr g)
  show ?thesis
  proof (cases "writeFault env p g")
    case None
    with Inr assms show ?thesis
      by (simp add: writeCheckPoint_def WriteFile_def)
  next
    case (Some fault)
    obtain err left where "fault = (err, left)"
      by (cases fault)
    with Some Inr assms show ?thesis
      by (simp add: writeCheckPoint_def WriteFile_def)
  qed
qed

text \<open>The outcome of a failing \<^verbatim>\<open>writeCheckPoint\<close> is the outcome of the run.\<close>

lemma run_ends_with_checkpoint_failure:
  assumes "getTokens env \<lparr>ModInputConfig = Some cfg\<rparr> w0 = (Inr (before @ token # rest), w)"
    and "forTokens env \<lparr>ModInputConfig = Some cfg\<rparr> before w = (Inr (), w1)"
    and "getAppCredentials env \<lparr>ModInputConfig = Some cfg\<rparr> w1 = (Inr (clientId, clientSecret), wa)"
    and "client = getClient env token clientId clientSecret"
    and "getTimes env \<lparr>ModInputConfig = Some cfg\<rparr> (emit (EvGetClient token clientId clientSecret) wa)
           = (Inr (s, e), wb)"
    and "getReaderStrategy \<lparr>ModInputConfig = Some cfg\<rparr> s e = Inr (Inr r)"
    and "getData env r client = Inr t"
    and "writeCheckPoint env \<lparr>ModInputConfig = Some cfg\<rparr> t (emit (EvGetData r client) wb)
           = (Inl f, wc)"
  shows "StreamEvents env (Some cfg, None) w0 = (Inl f, wc)"
proof -
  let ?input = "\<lparr>ModInputConfig = Some cfg\<rparr>"
  from assms(3-8) have one: "forToken env ?input token w1 = (Inl f, wc)"
    by (simp add: forToken_def bindE_def fetchAndCheckpoint_def)
  then have "forTokens env ?input (token # rest) w1 = (Inl f, wc)"
    by simp
  with assms(2) have "forTokens env ?input (before @ token # rest) w = (Inl f, wc)"
    by (simp add: forTokens_append)
  with assms(1) show ?thesis
    by (simp add: StreamEvents_def bindE_def)
qed

text \<open>
  Claim C8. Take a run that, for some token, has come through the
  credentials, the window, the reader and \<^verbatim>\<open>getData\<close>, which returned the
  time \<open>t\<close>. When the encoding of \<open>t\<close> fails, or when the write of the encoded
  \<open>t\<close> to the checkpoint file fails, the run ends there with a fatal failure,
  whatever tokens were still to come: the state it ends in is the state right
  after the fetch, or right after the failed write, so nothing is fetched and
  nothing is written afterwards.
\<close>

theorem checkpoint_write_failure_is_fatal:
  assumes "getTokens env \<lparr>ModInputConfig = Some cfg\<rparr> w0 = (Inr (before @ token # rest), w)"
    and "forTokens env \<lparr>ModInputConfig = Some cfg\<rparr> before w = (Inr (), w1)"
    and "getAppCredentials env \<lparr>ModInputConfig = Some cfg\<rparr> w1 = (Inr (clientId, clientSecret), wa)"
    and "client = getClient env token clientId clientSecret"
    and "getTimes env \<lparr>ModInputConfig = Some cfg\<rparr> (emit (EvGetClient token clientId clientSecret) wa)
           = (Inr (s, e), wb)"
    and "getReaderStrategy \<lparr>ModInputConfig = Some cfg\<rparr> s e = Inr (Inr r)"
    and "getData env r client = Inr t"
  shows "(\<forall>err. GobEncode env t = Inl err \<longrightarrow>
            StreamEvents env (Some cfg, None) w0
              = (Inl (Fatal (''Unable to encode checkpoint time: '' @ err)),
                 emit (EvGetData r client) wb))
         \<and> (\<forall>g p err left.
              GobEncode env t = Inr g \<and> getCheckPointPath env \<lparr>ModInputConfig = Some cfg\<rparr> = Inr p
              \<and> writeFault env p g = Some (err, left) \<longrightarrow>
            StreamEvents env (Some cfg, None) w0
              = (Inl (Fatal (''Error writing checkpoint file: '' @ err)),
                 emit (EvWriteFile p g)
                   ((emit (EvGetData r client) wb)\<lparr>files := (files wb)(p := left)\<rparr>)))"
proof (intro conjI allI impI)
  fix err
  assume "GobEncode env t = Inl err"
  from run_ends_with_checkpoint_failure [OF assms writeCheckPoint_encode_error [OF this]]
  show "StreamEvents env (Some cfg, None) w0
      = (Inl (Fatal (''Unable to encode checkpoint time: '' @ err)), emit (EvGetData r client) wb)" .
next
  fix g p err left
  assume "GobEncode env t = Inr g \<and> getCheckPointPath env \<lparr>ModInputConfig = Some cfg\<rparr> = Inr p
      \<and> writeFault env p g = Some (err, left)"
  then have "writeCheckPoint env \<lparr>ModInputConfig = Some cfg\<rparr> t (emit (EvGetData r client) wb)
      = (Inl (Fatal (''Error writing checkpoint file: '' @ err)),
         emit (EvWriteFile p g)
           ((emit (EvGetData r client) wb)\<lparr>files := (files wb)(p := left)\<rparr>))"
    by (simp add: writeCheckPoint_write_error emit_def)
  from run_ends_with_checkpoint_failure [OF assms this]
  show "StreamEvents env (Some cfg, None) w0
      = (Inl (Fatal (''Error writing checkpoint file: '' @ err)),
         emit (EvWriteFile p g)
           ((emit (EvGetData r client) wb)\<lparr>files := (files wb)(p := left)\<rparr>))" .
qed

theorem checkpoint_write_failure_is_fatal_witness:
  "fst (getTokens (fullDisk (sampleEnv (twoUsers ''GoogleFitness''))) (sampleInput ''GoogleFitness'')
          (sampleWorld Map.empty)) = Inr ([] @ tokenA # [tokenB])
   \<and> writeFault (fullDisk (sampleEnv (twoUsers ''GoogleFitness''))) samplePath
        (checkpointOf 1466467202000000000) = Some (''no space left on device'', None)
   \<and> fst (StreamEvents (fullDisk (sampleEnv (twoUsers ''GoogleFitness'')))
          (Some (sampleConfig ''GoogleFitness''), None) (sampleWorld Map.empty))
       = Inl (Fatal ''Error writing checkpoint file: no space left on device'')
   \<and> trace (snd (StreamEvents (fullDisk (sampleEnv (twoUsers ''GoogleFitness'')))
          (Some (sampleConfig ''GoogleFitness''), None) (sampleWorld Map.empty)))
       = [EvGetEntities ''session'', EvGetEntities ''session'',
          EvGetClient tokenA ''1234.apps.googleusercontent.com'' ''appsecret'',
          EvReadFile samplePath, EvLog ''Unable to read checkpoint file'',
          EvGetData (GoogleFitnessReader 1466467201000000000 1466467202000000000)
            (clientOf tokenA),
          EvWriteFile samplePath (checkpointOf 1466467202000000000)]
   \<and> GobEncode (noEncoder (sampleEnv (twoUsers ''GoogleFitness''))) 1466467202000000000
       = Inl ''year outside of range''
   \<and> fst (StreamEvents (noEncoder (sampleEnv (twoUsers ''GoogleFitness'')))
          (Some (sampleConfig ''GoogleFitness''), None) (sampleWorld Map.empty))
       = Inl (Fatal ''Unable to encode checkpoint time: year outside of range'')
   \<and> trace (snd (StreamEvents (noEncoder (sampleEnv (twoUsers ''GoogleFitness'')))
          (Some (sampleConfig ''GoogleFitness''), None) (sampleWorld Map.empty)))
       = [EvGetEntities ''session'', EvGetEntities ''session'',
          EvGetClient tokenA ''1234.apps.googleusercontent.com'' ''appsecret'',
          EvReadFile samplePath, EvLog ''Unable to read checkpoint file'',
          EvGetData (GoogleFitnessReader 1466467201000000000 1466467202000000000)
            (clientOf tokenA)]"
proof -
  let ?input = "\<lparr>ModInputConfig = Some (sampleConfig ''GoogleFitness'')\<rparr>"
  let ?start = "sampleWorld Map.empty"
  let ?r = "GoogleFitnessReader 1466467201000000000 1466467202000000000"
  let ?t = "1466467202000000000 :: int"
  have reader: "getReaderStrategy ?input 1466467201000000000 1466467202000000000 = Inr (Inr ?r)"
    by code_simp
  let ?full = "fullDisk (sampleEnv (twoUsers ''GoogleFitness''))"
  let ?w = "snd (getTokens ?full ?input ?start)"
  let ?wa = "snd (getAppCredentials ?full ?input ?w)"
  let ?wb = "snd (getTimes ?full ?input
    (emit (EvGetClient tokenA ''1234.apps.googleusercontent.com'' ''appsecret'') ?wa))"
  have listed: "fst (getTokens ?full ?input ?start) = Inr ([] @ tokenA # [tokenB])"
    by code_simp
  then have tokens: "getTokens ?full ?input ?start = (Inr ([] @ tokenA # [tokenB]), ?w)"
    by (simp add: prod_eq_iff)
  have earlier: "forTokens ?full ?input [] ?w = (Inr (), ?w)"
    by simp
  have "fst (getAppCredentials ?full ?input ?w)
      = Inr (''1234.apps.googleusercontent.com'', ''appsecret'')"
    by code_simp
  then have creds: "getAppCredentials ?full ?input ?w
      = (Inr (''1234.apps.googleusercontent.com'', ''appsecret''), ?wa)"
    by (simp add: prod_eq_iff)
  have client: "clientOf tokenA
      = getClient ?full tokenA ''1234.apps.googleusercontent.com'' ''appsecret''"
    by (simp add: clientOf_def fullDisk_def sampleEnv_def)
  have "fst (getTimes ?full ?input
        (emit (EvGetClient tokenA ''1234.apps.googleusercontent.com'' ''appsecret'') ?wa))
      = Inr (1466467201000000000, 1466467202000000000)"
    by code_simp
  then have times: "getTimes ?full ?input
        (emit (EvGetClient tokenA ''1234.apps.googleusercontent.com'' ''appsecret'') ?wa)
      = (Inr (1466467201000000000, 1466467202000000000), ?wb)"
    by (simp add: prod_eq_iff)
  have fetched: "getData ?full ?r (clientOf tokenA) = Inr ?t"
    by (simp add: fullDisk_def sampleEnv_def)
  have encoded: "GobEncode ?full ?t = Inr (checkpointOf ?t)"
    by code_simp
  have target: "getCheckPointPath ?full ?input = Inr samplePath"
    by code_simp
  have fault: "writeFault ?full samplePath (checkpointOf ?t)
      = Some (''no space left on device'', None)"
    by (simp add: fullDisk_def)
  from checkpoint_write_failure_is_fatal
    [OF tokens earlier creds client times reader fetched, THEN conjunct2] encoded target fault
  have "StreamEvents ?full (Some (sampleConfig ''GoogleFitness''), None) ?start
      = (Inl (Fatal (''Error writing checkpoint file: '' @ ''no space left on device'')),
         emit (EvWriteFile samplePath (checkpointOf ?t))
           ((emit (EvGetData ?r (clientOf tokenA)) ?wb)
              \<lparr>files := (files ?wb)(samplePath := None)\<rparr>))"
    by blast
  then have unwritten: "fst (StreamEvents ?full (Some (sampleConfig ''GoogleFitness''), None) ?start)
      = Inl (Fatal ''Error writing checkpoint file: no space left on device'')"
    by simp
  have events: "trace (snd (StreamEvents ?full (Some (sampleConfig ''GoogleFitness''), None) ?start))
      = [EvGetEntities ''session'', EvGetEntities ''session'',
         EvGetClient tokenA ''1234.apps.googleusercontent.com'' ''appsecret'',
         EvReadFile samplePath, EvLog ''Unable to read checkpoint file'',
         EvGetData ?r (clientOf tokenA),
         EvWriteFile samplePath (checkpointOf ?t)]"
    by code_simp

  let ?none = "noEncoder (sampleEnv (twoUsers ''GoogleFitness''))"
  let ?v = "snd (getTokens ?none ?input ?start)"
  let ?va = "snd (getAppCredentials ?none ?input ?v)"
  let ?vb = "snd (getTimes ?none ?input
    (emit (EvGetClient tokenA ''1234.apps.googleusercontent.com'' ''appsecret'') ?va))"
  have "fst (getTokens ?none ?input ?start) = Inr ([] @ tokenA # [tokenB])"
    by code_simp
  then have tokens': "getTokens ?none ?input ?start = (Inr ([] @ tokenA # [tokenB]), ?v)"
    by (simp add: prod_eq_iff)
  have earlier': "forTokens ?none ?input [] ?v = (Inr (), ?v)"
    by simp
  have "fst (getAppCredentials ?none ?input ?v)
      = Inr (''1234.apps.googleusercontent.com'', ''appsecret'')"
    by code_simp
  then have creds': "getAppCredentials ?none ?input ?v
      = (Inr (''1234.apps.googleusercontent.com'', ''appsecret''), ?va)"
    by (simp add: prod_eq_iff)
  have client': "clientOf tokenA
      = getClient ?none tokenA ''1234.apps.googleusercontent.com'' ''appsecret''"
    by (simp add: clientOf_def noEncoder_def sampleEnv_def)
  have "fst (getTimes ?none ?input
        (emit (EvGetClient tokenA ''1234.apps.googleusercontent.com'' ''appsecret'') ?va))
      = Inr (1466467201000000000, 1466467202000000000)"
    by code_simp
  then have times': "getTimes ?none ?input
        (emit (EvGetClient tokenA ''1234.apps.googleusercontent.com'' ''appsecret'') ?va)
      = (Inr (1466467201000000000, 1466467202000000000), ?vb)"
    by (simp add: prod_eq_iff)
  have fetched': "getData ?none ?r (clientOf tokenA) = Inr ?t"
    by (simp add: noEncoder_def sampleEnv_def)
  have refused: "GobEncode ?none ?t = Inl ''year outside of range''"
    by (simp add: noEncoder_def)
  from checkpoint_write_failure_is_fatal
    [OF tokens' earlier' creds' client' times' reader fetched', THEN conjunct1] refused
  have "StreamEvents ?none (Some (sampleConfig ''GoogleFitness''), None) ?start
      = (Inl (Fatal (''Unable to encode checkpoint time: '' @ ''year outside of range'')),
         emit (EvGetData ?r (clientOf tokenA)) ?vb)"
    by blast
  then have unencoded: "fst (StreamEvents ?none (Some (sampleConfig ''GoogleFitness''), None) ?start)
      = Inl (Fatal ''Unable to encode checkpoint time: year outside of range'')"
    by simp
  have events': "trace (snd (StreamEvents ?none (Some (sampleConfig ''GoogleFitness''), None) ?start))
      = [EvGetEntities ''session'', EvGetEntities ''session'',
         EvGetClient tokenA ''1234.apps.googleusercontent.com'' ''appsecret'',
         EvReadFile samplePath, EvLog ''Unable to read checkpoint file'',
         EvGetData ?r (clientOf tokenA)]"
    by code_simp
  from listed fault unwritten events refused unencoded events' show ?thesis
    by (simp add: sampleInput_def)
qed

end
